theory Spec2Isabelle
  imports Complex_Main "HOL-Library.AList"
begin

section \<open>The SVG to Excalidraw translation of \<open>excalidraw_model.py\<close>\<close>

text \<open>
  The development embeds \<open>Diagram.from_svg\<close> and the two identifier functions of
  \<open>src/idaes_connectivity/excalidraw_model.py\<close>.

  Conventions of the embedding:
  \<^item> The input is the tree that \<open>xml.etree.ElementTree\<close> has already parsed: an element has
    a tag, an attribute dictionary, an optional text and its children.
  \<^item> A Python \<open>str\<close> is a \<open>string\<close>; a character stands for a code point below 256.
  \<^item> Python numbers (\<open>int\<close> and \<open>float\<close>) that end up in the scene are rationals: float
    arithmetic is taken as exact, rounding and the non-finite floats are not part of the model.
  \<^item> The library functions the code calls but does not define are parameters, collected in
    the record \<open>env\<close>: the random source behind \<open>_element_id\<close>, Python's \<open>float()\<close> on a
    string, and the SHA-1 hex digest.
  \<^item> Every exception is a value of the type \<open>error\<close>; a function that may raise returns
    \<open>error + 'a\<close>.
  \<^item> The element dictionaries are shared between \<open>model.elements\<close> and \<open>shape_elt_map\<close> and
    are mutated through both, so they live in an explicit store (\<open>heap\<close>, addressed by index)
    and both containers hold addresses.
  \<^item> Of the keys of an element dictionary, the record \<open>element\<close> keeps those whose value
    depends on the input. The keys that hold the same literal in every element of a type
    (\<open>angle\<close>, \<open>strokeColor\<close>, \<open>backgroundColor\<close>, \<open>fillStyle\<close>, \<open>strokeWidth\<close>,
    \<open>strokeStyle\<close>, \<open>roughness\<close>, \<open>opacity\<close>, \<open>roundness\<close>, \<open>isDeleted\<close>, \<open>locked\<close>,
    \<open>frameId\<close>, \<open>link\<close>, \<open>originalText\<close>, \<open>autoResize\<close>, \<open>lineHeight\<close>, \<open>fontFamily\<close>,
    \<open>textAlign\<close>, \<open>verticalAlign\<close>, \<open>scale\<close>, \<open>crop\<close>, \<open>lastCommittedPoint\<close>, the arrowheads,
    \<open>elbowed\<close>, and \<open>focus\<close>, \<open>gap\<close>, \<open>fixedPoint\<close> of a binding) and the wall-clock
    stamps (\<open>updated\<close>, \<open>created\<close>, \<open>lastRetrieved\<close>) are left out; a key that a type of
    element does not have reads as \<open>None\<close> or \<open>[]\<close>.
\<close>

subsection \<open>Input trees, errors, parameters\<close>

datatype xml =
  Element (el_tag: string) (el_attrib: "(string \<times> string) list")
          (el_text: "string option") (el_children: "xml list")

text \<open>\<open>elt.get(k)\<close>: the attribute or \<open>None\<close>.\<close>

definition xget :: "xml \<Rightarrow> string \<Rightarrow> string option" where
  "xget e k = map_of (el_attrib e) k"

definition svg_ns :: string where
  "svg_ns = ''{http://www.w3.org/2000/svg}''"

definition g_tag :: string where
  "g_tag = svg_ns @ ''g''"

text \<open>
  The \<open>ValueError\<close>s are told apart by the statement that raises them, the \<open>KeyError\<close>s by
  the dictionary that misses the key (and carry the key, as Python's do).
\<close>

datatype value_error =
  NoSvgTag | NoShape | NoEndpoints | WrongItemCount nat | ExpectedM | ExpectedC | BadFloat

datatype dict_name = SvgXcMap | ShapeBounds | ShapeEltMap

datatype error =
  ValueError value_error
| KeyError dict_name string
| TypeError
| AttributeError
| UnboundLocalError

record env =
  rand_id :: "nat \<Rightarrow> string"
  pyfloat :: "string \<Rightarrow> rat option"
  sha1_hex :: "string \<Rightarrow> string"

text \<open>
  \<open>rand_id env n\<close> is the string that the \<open>n\<close>-th call of \<open>_element_id\<close> draws,
  \<open>pyfloat env s\<close> is \<open>float(s)\<close> (\<open>None\<close> where it raises \<open>ValueError\<close>), and
  \<open>sha1_hex env s\<close> is \<open>sha1(s.encode("utf-8")).hexdigest()\<close>.
\<close>

subsection \<open>Strings: whitespace, the two regular expressions, the tokenizer\<close>

text \<open>Python's \<open>str.isspace\<close> and the class \<open>\s\<close> on code points below 256.\<close>

definition py_isspace :: "char \<Rightarrow> bool" where
  "py_isspace c = (of_char c \<in> set [9, 10, 11, 12, 13, 28, 29, 30, 31, 32, 133, 160 :: nat])"

definition nonspace :: "char \<Rightarrow> bool" where
  "nonspace c = (\<not> py_isspace c)"

definition is_digit :: "char \<Rightarrow> bool" where
  "is_digit c = (48 \<le> (of_char c :: nat) \<and> (of_char c :: nat) \<le> 57)"

definition strip :: "string \<Rightarrow> string" where
  "strip s = rev (dropWhile py_isspace (rev (dropWhile py_isspace s)))"

text \<open>\<open>int(ds)\<close> on a string of decimal digits.\<close>

definition int_of_digits :: "string \<Rightarrow> int" where
  "int_of_digits ds = foldl (\<lambda>a c. 10 * a + (int (of_char c) - 48)) 0 ds"

text \<open>
  A backtracking matcher tries the alternatives of a greedy repetition from the longest to
  the shortest and keeps the first that lets the rest of the pattern match.
\<close>

fun first_some :: "('a \<Rightarrow> 'b option) \<Rightarrow> 'a list \<Rightarrow> 'b option" where
  "first_some f [] = None"
| "first_some f (x # xs) = (case f x of Some y \<Rightarrow> Some y | None \<Rightarrow> first_some f xs)"

definition run_len :: "(char \<Rightarrow> bool) \<Rightarrow> string \<Rightarrow> nat" where
  "run_len P s = length (takeWhile P s)"

text \<open>The counts \<open>hi, hi - 1, ..., lo\<close> a greedy repetition tries.\<close>

definition greedy :: "nat \<Rightarrow> nat \<Rightarrow> nat list" where
  "greedy lo hi = rev [lo..<Suc hi]"

text \<open>
  \<open>re.search(r"\((\S+)\s*->\s*(\S+)\).*", item_id)\<close>: the groups 1 and 2 of the leftmost
  match. The trailing \<open>.*\<close> matches the empty string, so it never decides a match.
\<close>

definition match_endpoints_at :: "string \<Rightarrow> (string \<times> string) option" where
  "match_endpoints_at s =
     (case s of
        [] \<Rightarrow> None
      | c # r \<Rightarrow>
          if c \<noteq> CHR ''('' then None
          else first_some (\<lambda>n1.
                 let r1 = drop n1 r in
                 first_some (\<lambda>k1.
                   let r2 = drop k1 r1 in
                   if take 2 r2 \<noteq> ''->'' then None
                   else
                     let r3 = drop 2 r2 in
                     first_some (\<lambda>k2.
                       let r4 = drop k2 r3 in
                       first_some (\<lambda>n2.
                         if take 1 (drop n2 r4) = '')'' then Some (take n1 r, take n2 r4)
                         else None)
                       (greedy 1 (run_len nonspace r4)))
                     (greedy 0 (run_len py_isspace r3)))
                 (greedy 0 (run_len py_isspace r1)))
               (greedy 1 (run_len nonspace r)))"

definition search_endpoints :: "string \<Rightarrow> (string \<times> string) option" where
  "search_endpoints s = first_some (\<lambda>i. match_endpoints_at (drop i s)) [0..<Suc (length s)]"

text \<open>\<open>re.search(r"font-size:\s*(\d+)px", text_style)\<close>: group 1 of the leftmost match.\<close>

definition match_font_size_at :: "string \<Rightarrow> string option" where
  "match_font_size_at s =
     (if take 10 s \<noteq> ''font-size:'' then None
      else
        let r = drop 10 s in
        first_some (\<lambda>k.
          let r1 = drop k r in
          first_some (\<lambda>n. if take 2 (drop n r1) = ''px'' then Some (take n r1) else None)
            (greedy 1 (run_len is_digit r1)))
        (greedy 0 (run_len py_isspace r)))"

definition search_font_size :: "string \<Rightarrow> string option" where
  "search_font_size s = first_some (\<lambda>i. match_font_size_at (drop i s)) [0..<Suc (length s)]"

text \<open>
  \<open>re.split(r"[, ]+", path_coords)\<close>: the pieces between the maximal runs of commas and
  spaces; a run at either end leaves an empty piece there.
\<close>

definition is_sep :: "char \<Rightarrow> bool" where
  "is_sep c = (c = CHR '','' \<or> c = CHR '' '')"

fun split_aux :: "bool \<Rightarrow> string \<Rightarrow> string \<Rightarrow> string list" where
  "split_aux in_sep acc [] = [acc]"
| "split_aux in_sep acc (c # cs) =
     (if is_sep c then (if in_sep then split_aux True acc cs else acc # split_aux True [] cs)
      else split_aux False (acc @ [c]) cs)"

definition split_coords :: "string \<Rightarrow> string list" where
  "split_coords s = split_aux False [] s"

subsection \<open>The scene\<close>

record bounds =
  b_x :: rat
  b_y :: rat
  b_width :: rat
  b_height :: rat

datatype elt_type = Rectangle | Image | Text | Arrow

record bound_element =
  be_type :: string
  be_id :: string

record element =
  elt_id :: string
  elt_type :: elt_type
  elt_x :: rat
  elt_y :: rat
  elt_width :: rat
  elt_height :: rat
  groupIds :: "string list"
  boundElements :: "bound_element list option"
  points :: "(rat \<times> rat) list"
  fileId :: "string option"
  elt_text :: "string option"
  fontSize :: "int option"
  containerId :: "string option"
  startBinding :: "string option"
  endBinding :: "string option"

text \<open>
  \<open>startBinding\<close> and \<open>endBinding\<close> hold the \<open>elementId\<close> of the binding dictionary; a point
  \<open>[x, y]\<close> is a pair.
\<close>

record image_file =
  mimeType :: string
  file_id :: string
  dataURL :: string

record app_state =
  gridSize :: int
  gridStep :: int
  gridModeEnabled :: bool
  viewBackgroundColor :: string

record model =
  m_type :: string
  m_version :: int
  m_source :: string
  m_elements :: "element list"
  m_appState :: app_state
  m_files :: "(string \<times> image_file) list"

subsection \<open>The translation context\<close>

text \<open>
  The dictionaries are association lists in insertion order (\<open>AList.update\<close> overwrites in
  place or appends, as a Python \<open>dict\<close> does). \<open>nxt\<close> counts the calls of \<open>_element_id\<close>.
  \<open>bounds_var\<close> is the local variable \<open>bounds\<close>, which survives from one iteration of the
  main loop to the next and is unbound before its first assignment. \<open>elements\<close> is
  \<open>model.elements\<close>, as addresses into \<open>heap\<close>.
\<close>

record ctx =
  nxt :: nat
  svg_xc_map :: "(string option \<times> string) list"
  shape_bounds :: "(string \<times> bounds) list"
  shape_elt_map :: "(string \<times> nat) list"
  bounds_var :: "bounds option"
  heap :: "element list"
  elements :: "nat list"
  files :: "(string \<times> image_file) list"

definition init_ctx :: ctx where
  "init_ctx = \<lparr>nxt = 0, svg_xc_map = [], shape_bounds = [], shape_elt_map = [],
     bounds_var = None, heap = [], elements = [], files = []\<rparr>"

text \<open>\<open>_element_id\<close>: the next draw of the random source.\<close>

definition element_id :: "env \<Rightarrow> ctx \<Rightarrow> string \<times> ctx" where
  "element_id env st = (rand_id env (nxt st), st\<lparr>nxt := Suc (nxt st)\<rparr>)"

text \<open>\<open>_image_id\<close>: the hex digest of the payload string.\<close>

definition image_id :: "env \<Rightarrow> string \<Rightarrow> string" where
  "image_id env data = sha1_hex env data"

text \<open>A new dictionary: a new cell of the store.\<close>

definition alloc :: "element \<Rightarrow> ctx \<Rightarrow> nat \<times> ctx" where
  "alloc e st = (length (heap st), st\<lparr>heap := heap st @ [e]\<rparr>)"

definition modify :: "nat \<Rightarrow> (element \<Rightarrow> element) \<Rightarrow> ctx \<Rightarrow> ctx" where
  "modify a f st = st\<lparr>heap := (heap st)[a := f (heap st ! a)]\<rparr>"

text \<open>\<open>d["boundElements"].append(b)\<close>; on \<open>None\<close> it raises \<open>AttributeError\<close>.\<close>

definition append_bound :: "bound_element \<Rightarrow> nat \<Rightarrow> ctx \<Rightarrow> error + ctx" where
  "append_bound b a st =
     (case boundElements (heap st ! a) of
        None \<Rightarrow> Inl AttributeError
      | Some bs \<Rightarrow> Inr (modify a (\<lambda>e. e\<lparr>boundElements := Some (bs @ [b])\<rparr>) st))"

subsection \<open>Classifying the children of a group (lines 110 to 127)\<close>

record found =
  g_rect :: "xml option"
  g_line :: "xml option"
  g_text :: "xml option"
  g_image :: "xml option"

definition none_found :: found where
  "none_found = \<lparr>g_rect = None, g_line = None, g_text = None, g_image = None\<rparr>"

text \<open>
  The inner loop stops at the first \<open>rect\<close> or \<open>image\<close> and assigns it. The outer loop
  keeps the last \<open>text\<close> and the last \<open>path\<close> child, and raises at a shape container when
  neither a rectangle nor an image has been found so far.
\<close>

fun scan_shape :: "found \<Rightarrow> xml list \<Rightarrow> found" where
  "scan_shape f [] = f"
| "scan_shape f (elt # elts) =
     (if el_tag elt = svg_ns @ ''rect'' then f\<lparr>g_rect := Some elt\<rparr>
      else if el_tag elt = svg_ns @ ''image'' then f\<lparr>g_image := Some elt\<rparr>
      else scan_shape f elts)"

fun scan_subitems :: "found \<Rightarrow> xml list \<Rightarrow> error + found" where
  "scan_subitems f [] = Inr f"
| "scan_subitems f (subitem # subitems) =
     (if el_tag subitem = g_tag \<and> (case xget subitem ''class'' of None \<Rightarrow> [] | Some c \<Rightarrow> c) = ''shape''
      then
        let f' = scan_shape f (el_children subitem) in
        if g_rect f' = None \<and> g_image f' = None then Inl (ValueError NoShape)
        else scan_subitems f' subitems
      else if el_tag subitem = svg_ns @ ''text'' then scan_subitems (f\<lparr>g_text := Some subitem\<rparr>) subitems
      else if el_tag subitem = svg_ns @ ''path'' then scan_subitems (f\<lparr>g_line := Some subitem\<rparr>) subitems
      else scan_subitems f subitems)"

subsection \<open>Shapes (lines 130 to 217)\<close>

text \<open>\<open>int(r)\<close> on a float truncates towards zero.\<close>

definition py_int :: "rat \<Rightarrow> int" where
  "py_int r = (if 0 \<le> r then \<lfloor>r\<rfloor> else \<lceil>r\<rceil>)"

text \<open>\<open>float(g.get(c))\<close>: \<open>float(None)\<close> raises \<open>TypeError\<close>.\<close>

definition float_attr :: "env \<Rightarrow> xml \<Rightarrow> string \<Rightarrow> error + rat" where
  "float_attr env g c =
     (case xget g c of
        None \<Rightarrow> Inl TypeError
      | Some s \<Rightarrow> (case pyfloat env s of None \<Rightarrow> Inl (ValueError BadFloat) | Some r \<Rightarrow> Inr r))"

definition int_attr :: "env \<Rightarrow> xml \<Rightarrow> string \<Rightarrow> error + rat" where
  "int_attr env g c =
     (case float_attr env g c of Inl e \<Rightarrow> Inl e | Inr r \<Rightarrow> Inr (of_int (py_int r)))"

text \<open>\<open>Bounds(*[int(float(g.get(c))) for c in ("x", "y", "width", "height")])\<close>.\<close>

definition read_bounds :: "env \<Rightarrow> xml \<Rightarrow> error + bounds" where
  "read_bounds env g =
     (case int_attr env g ''x'' of Inl e \<Rightarrow> Inl e | Inr vx \<Rightarrow>
      case int_attr env g ''y'' of Inl e \<Rightarrow> Inl e | Inr vy \<Rightarrow>
      case int_attr env g ''width'' of Inl e \<Rightarrow> Inl e | Inr vw \<Rightarrow>
      case int_attr env g ''height'' of Inl e \<Rightarrow> Inl e | Inr vh \<Rightarrow>
      Inr \<lparr>b_x = vx, b_y = vy, b_width = vw, b_height = vh\<rparr>)"

definition shape_element :: "elt_type \<Rightarrow> string \<Rightarrow> bounds \<Rightarrow> string option \<Rightarrow> element" where
  "shape_element ty i b fid =
     \<lparr>elt_id = i, elt_type = ty, elt_x = b_x b, elt_y = b_y b,
      elt_width = b_width b, elt_height = b_height b,
      groupIds = [], boundElements = Some [], points = [], fileId = fid,
      elt_text = None, fontSize = None, containerId = None,
      startBinding = None, endBinding = None\<rparr>"

text \<open>
  \<open>if g_rect is not None:\<close> the rectangle is built and entered into \<open>shape_bounds\<close> and
  \<open>shape_elt_map\<close> under the group's id. The result is the address of \<open>rect_elt\<close>.
\<close>

definition rect_phase :: "env \<Rightarrow> string \<Rightarrow> xml option \<Rightarrow> ctx \<Rightarrow> error + (nat option \<times> ctx)" where
  "rect_phase env xc_id gr st =
     (case gr of
        None \<Rightarrow> Inr (None, st)
      | Some g \<Rightarrow>
          (case read_bounds env g of
             Inl e \<Rightarrow> Inl e
           | Inr b \<Rightarrow>
               let (a, st1) = alloc (shape_element Rectangle xc_id b None) (st\<lparr>bounds_var := Some b\<rparr>)
               in Inr (Some a,
                       st1\<lparr>shape_bounds := AList.update xc_id b (shape_bounds st1),
                           shape_elt_map := AList.update xc_id a (shape_elt_map st1)\<rparr>)))"

text \<open>
  \<open>if g_image is not None:\<close> the result is the address of \<open>image_elt\<close> with
  \<open>image_file_id\<close> and \<open>image_file_elt\<close>. Without an \<open>href\<close>, \<open>_image_id(None)\<close> raises
  \<open>AttributeError\<close> (\<open>None.encode\<close>).
\<close>

definition image_phase ::
  "env \<Rightarrow> string \<Rightarrow> xml option \<Rightarrow> ctx \<Rightarrow> error + ((nat \<times> string \<times> image_file) option \<times> ctx)" where
  "image_phase env xc_id gi st =
     (case gi of
        None \<Rightarrow> Inr (None, st)
      | Some g \<Rightarrow>
          (case read_bounds env g of
             Inl e \<Rightarrow> Inl e
           | Inr b \<Rightarrow>
               (case xget g ''href'' of
                  None \<Rightarrow> Inl AttributeError
                | Some image_data \<Rightarrow>
                    let image_file_id = image_id env image_data;
                        image_file_elt =
                          \<lparr>mimeType = ''image/svg+xml'', file_id = image_file_id, dataURL = image_data\<rparr>;
                        (a, st1) = alloc (shape_element Image xc_id b (Some image_file_id))
                                     (st\<lparr>bounds_var := Some b\<rparr>)
                    in Inr (Some (a, image_file_id, image_file_elt),
                            st1\<lparr>shape_bounds := AList.update xc_id b (shape_bounds st1),
                                shape_elt_map := AList.update xc_id a (shape_elt_map st1)\<rparr>))))"

subsection \<open>The label (lines 218 to 270)\<close>

definition font_size_of :: "string \<Rightarrow> int" where
  "font_size_of text_style =
     (case search_font_size text_style of Some ds \<Rightarrow> int_of_digits ds | None \<Rightarrow> 12)"

definition text_element :: "string \<Rightarrow> bounds \<Rightarrow> int \<Rightarrow> string \<Rightarrow> element" where
  "text_element text_id b font_size text_value =
     \<lparr>elt_id = text_id, elt_type = Text, elt_x = b_x b,
      elt_y = b_y b + (b_height b / 2) - 4 - (of_int font_size / 2),
      elt_width = b_width b + of_int font_size,
      elt_height = of_int font_size * (3 / 2),
      groupIds = [], boundElements = None, points = [], fileId = None,
      elt_text = Some text_value, fontSize = Some font_size, containerId = None,
      startBinding = None, endBinding = None\<rparr>"

text \<open>
  \<open>if g_text is not None:\<close> in the order of the source: the id is drawn, \<open>tb\<close> is computed
  (it is never read, but \<open>int(float(...))\<close> may raise), the text is stripped (\<open>None.strip\<close>
  raises \<open>AttributeError\<close>), the font size is read, and the dictionary is built from the
  variable \<open>bounds\<close>. The result is the address of \<open>text_elt\<close> with \<open>text_id\<close> and
  \<open>font_size\<close>.
\<close>

definition text_phase ::
  "env \<Rightarrow> xml option \<Rightarrow> ctx \<Rightarrow> error + ((nat \<times> string \<times> int) option \<times> ctx)" where
  "text_phase env gt st =
     (case gt of
        None \<Rightarrow> Inr (None, st)
      | Some g \<Rightarrow>
          let (text_id, st1) = element_id env st in
          (case int_attr env g ''x'' of Inl e \<Rightarrow> Inl e | Inr tx \<Rightarrow>
           case int_attr env g ''y'' of Inl e \<Rightarrow> Inl e | Inr ty \<Rightarrow>
           case el_text g of None \<Rightarrow> Inl AttributeError | Some t \<Rightarrow>
             let text_value = strip t;
                 text_style = (case xget g ''style'' of None \<Rightarrow> [] | Some s \<Rightarrow> s);
                 font_size = font_size_of text_style
             in (case bounds_var st1 of
                   None \<Rightarrow> Inl UnboundLocalError
                 | Some b \<Rightarrow>
                     let (a, st2) = alloc (text_element text_id b font_size text_value) st1
                     in Inr (Some (a, text_id, font_size), st2))))"

subsection \<open>The connector (lines 271 to 374)\<close>

definition to_float :: "env \<Rightarrow> string \<Rightarrow> error + rat" where
  "to_float env s = (case pyfloat env s of None \<Rightarrow> Inl (ValueError BadFloat) | Some r \<Rightarrow> Inr r)"

text \<open>
  \<open>start_bounds\<close>, \<open>end_bounds\<close> and \<open>point_list\<close>: from the registered bounds of the two
  shapes when the path has no \<open>d\<close>, from the tokens of \<open>d\<close> otherwise.
\<close>

definition line_geometry ::
  "env \<Rightarrow> (string \<times> bounds) list \<Rightarrow> string \<Rightarrow> string \<Rightarrow> string option
     \<Rightarrow> error + (bounds \<times> bounds \<times> (rat \<times> rat) list)" where
  "line_geometry env sbs start_shape_id end_shape_id path_coords =
     (case path_coords of
        None \<Rightarrow>
          (case map_of sbs start_shape_id of
             None \<Rightarrow> Inl (KeyError ShapeBounds start_shape_id)
           | Some start_bounds \<Rightarrow>
          (case map_of sbs end_shape_id of
             None \<Rightarrow> Inl (KeyError ShapeBounds end_shape_id)
           | Some end_bounds \<Rightarrow>
               let dx = b_x end_bounds - b_x start_bounds;
                   startx = (if dx > 0 then b_width start_bounds else 0);
                   dy = b_y end_bounds - b_y start_bounds;
                   starty = b_height start_bounds / 2
               in Inr (start_bounds, end_bounds, [(startx, starty), (dx, dy)])))
      | Some pc \<Rightarrow>
          let coord_items = split_coords pc; n = length coord_items in
          if n < 10 then Inl (ValueError (WrongItemCount n))
          else if coord_items ! 0 \<noteq> ''M'' then Inl (ValueError ExpectedM)
          else if coord_items ! 3 \<noteq> ''C'' then Inl (ValueError ExpectedC)
          else
            (case to_float env (coord_items ! 1) of Inl e \<Rightarrow> Inl e | Inr sx \<Rightarrow>
             case to_float env (coord_items ! 2) of Inl e \<Rightarrow> Inl e | Inr sy \<Rightarrow>
             case to_float env (coord_items ! 8) of Inl e \<Rightarrow> Inl e | Inr ex \<Rightarrow>
             case to_float env (coord_items ! 9) of Inl e \<Rightarrow> Inl e | Inr ey \<Rightarrow>
             case to_float env (coord_items ! 4) of Inl e \<Rightarrow> Inl e | Inr x1 \<Rightarrow>
             case to_float env (coord_items ! 5) of Inl e \<Rightarrow> Inl e | Inr y1 \<Rightarrow>
             case to_float env (coord_items ! (n - 2)) of Inl e \<Rightarrow> Inl e | Inr x2 \<Rightarrow>
             case to_float env (coord_items ! (n - 1)) of Inl e \<Rightarrow> Inl e | Inr y2 \<Rightarrow>
               Inr (\<lparr>b_x = sx, b_y = sy, b_width = 0, b_height = 0\<rparr>,
                    \<lparr>b_x = ex, b_y = ey, b_width = 0, b_height = 0\<rparr>,
                    [(0, 0), (x1 - sx, y1 - sy), (x2 - sx, y2 - sy)])))"

definition arrow_element ::
  "string \<Rightarrow> bounds \<Rightarrow> bounds \<Rightarrow> (rat \<times> rat) list \<Rightarrow> string \<Rightarrow> string \<Rightarrow> element" where
  "arrow_element line_id start_bounds end_bounds point_list start_shape_id end_shape_id =
     \<lparr>elt_id = line_id, elt_type = Arrow, elt_x = b_x start_bounds, elt_y = b_y start_bounds,
      elt_width = \<bar>b_x end_bounds - b_x start_bounds\<bar>,
      elt_height = \<bar>b_y end_bounds - b_y start_bounds\<bar>,
      groupIds = [], boundElements = None, points = point_list, fileId = None,
      elt_text = None, fontSize = None, containerId = None,
      startBinding = Some start_shape_id, endBinding = Some end_shape_id\<rparr>"

definition arrow_bound :: "string \<Rightarrow> bound_element" where
  "arrow_bound line_id = \<lparr>be_type = ''arrow'', be_id = line_id\<rparr>"

text \<open>
  \<open>if g_line is not None:\<close> \<open>re.search\<close> on an \<open>item_id\<close> that is \<open>None\<close> raises \<open>TypeError\<close>.
  The result is the address of \<open>line_elt\<close>.
\<close>

definition line_phase ::
  "env \<Rightarrow> string option \<Rightarrow> xml option \<Rightarrow> ctx \<Rightarrow> error + (nat option \<times> ctx)" where
  "line_phase env item_id gl st =
     (case gl of
        None \<Rightarrow> Inr (None, st)
      | Some g \<Rightarrow>
          let (line_id, st1) = element_id env st in
          (case item_id of None \<Rightarrow> Inl TypeError | Some iid \<Rightarrow>
           case search_endpoints iid of None \<Rightarrow> Inl (ValueError NoEndpoints) | Some (unit1, unit2) \<Rightarrow>
           case map_of (svg_xc_map st1) (Some unit1) of
             None \<Rightarrow> Inl (KeyError SvgXcMap unit1) | Some start_shape_id \<Rightarrow>
           case map_of (svg_xc_map st1) (Some unit2) of
             None \<Rightarrow> Inl (KeyError SvgXcMap unit2) | Some end_shape_id \<Rightarrow>
           case line_geometry env (shape_bounds st1) start_shape_id end_shape_id (xget g ''d'') of
             Inl e \<Rightarrow> Inl e | Inr (start_bounds, end_bounds, point_list) \<Rightarrow>
             let (a, st2) = alloc (arrow_element line_id start_bounds end_bounds point_list
                                     start_shape_id end_shape_id) st1
             in (case map_of (shape_elt_map st2) start_shape_id of
                   None \<Rightarrow> Inl (KeyError ShapeEltMap start_shape_id) | Some sa \<Rightarrow>
                 case append_bound (arrow_bound line_id) sa st2 of Inl e \<Rightarrow> Inl e | Inr st3 \<Rightarrow>
                 case map_of (shape_elt_map st3) end_shape_id of
                   None \<Rightarrow> Inl (KeyError ShapeEltMap end_shape_id) | Some ea \<Rightarrow>
                 case append_bound (arrow_bound line_id) ea st3 of Inl e \<Rightarrow> Inl e | Inr st4 \<Rightarrow>
                   Inr (Some a, st4))))"

subsection \<open>Binding the label and appending to the scene (lines 375 to 392)\<close>

definition text_bound :: "string \<Rightarrow> bound_element" where
  "text_bound text_id = \<lparr>be_type = ''text'', be_id = text_id\<rparr>"

definition bind_phase ::
  "env \<Rightarrow> string \<Rightarrow> nat option \<Rightarrow> (nat \<times> string \<times> image_file) option \<Rightarrow> (nat \<times> string \<times> int) option
     \<Rightarrow> ctx \<Rightarrow> error + ctx" where
  "bind_phase env xc_id rect_elt image_elt text_elt st =
     (case text_elt of
        None \<Rightarrow> Inr st
      | Some (ta, text_id, font_size) \<Rightarrow>
          (case rect_elt of
             Some ra \<Rightarrow>
               (case append_bound (text_bound text_id) ra st of
                  Inl e \<Rightarrow> Inl e
                | Inr st1 \<Rightarrow> Inr (modify ta (\<lambda>e. e\<lparr>containerId := Some xc_id\<rparr>) st1))
           | None \<Rightarrow>
               (case image_elt of
                  None \<Rightarrow> Inr st
                | Some (ia, image_file_id, image_file_elt) \<Rightarrow>
                    let (group_id, st1) = element_id env st;
                        st2 = modify ia (\<lambda>e. e\<lparr>groupIds := [group_id]\<rparr>) st1;
                        st3 = modify ta (\<lambda>e. e\<lparr>groupIds := [group_id]\<rparr>) st2;
                        h = elt_height (heap st3 ! ia)
                    in Inr (modify ta (\<lambda>e. e\<lparr>elt_y := elt_y e + (h / 2 + of_int font_size / 2)\<rparr>) st3))))"

definition append_phase ::
  "nat option \<Rightarrow> (nat \<times> string \<times> image_file) option \<Rightarrow> (nat \<times> string \<times> int) option \<Rightarrow> nat option
     \<Rightarrow> ctx \<Rightarrow> ctx" where
  "append_phase rect_elt image_elt text_elt line_elt st =
     (let st1 = (case rect_elt of None \<Rightarrow> st | Some ra \<Rightarrow> st\<lparr>elements := elements st @ [ra]\<rparr>);
          st2 = (case image_elt of
                   None \<Rightarrow> st1
                 | Some (ia, image_file_id, image_file_elt) \<Rightarrow>
                     st1\<lparr>elements := elements st1 @ [ia],
                         files := AList.update image_file_id image_file_elt (files st1)\<rparr>);
          st3 = (case text_elt of
                   None \<Rightarrow> st2
                 | Some (ta, text_id, font_size) \<Rightarrow> st2\<lparr>elements := elements st2 @ [ta]\<rparr>)
      in (case line_elt of None \<Rightarrow> st3 | Some la \<Rightarrow> st3\<lparr>elements := elements st3 @ [la]\<rparr>))"

subsection \<open>The main loop and \<open>from_svg\<close>\<close>

text \<open>
  One iteration of \<open>for item in svg\<close>. A child that is not a group is passed over. For a
  group, an id is drawn and entered into \<open>svg_xc_map\<close> under the group's \<open>id\<close> attribute
  (which may be \<open>None\<close>) before anything else is looked at.
\<close>

definition register :: "env \<Rightarrow> xml \<Rightarrow> ctx \<Rightarrow> string \<times> ctx" where
  "register env item st =
     (let (xc_id, st1) = element_id env st
      in (xc_id, st1\<lparr>svg_xc_map := AList.update (xget item ''id'') xc_id (svg_xc_map st1)\<rparr>))"

text \<open>The rest of the loop body, from the classification of the children on.\<close>

definition process :: "env \<Rightarrow> xml \<Rightarrow> string \<times> ctx \<Rightarrow> error + ctx" where
  "process env item reg =
     (let (xc_id, st2) = reg in
      (case scan_subitems none_found (el_children item) of Inl e \<Rightarrow> Inl e | Inr f \<Rightarrow>
       case rect_phase env xc_id (g_rect f) st2 of Inl e \<Rightarrow> Inl e | Inr (rect_elt, st3) \<Rightarrow>
       case image_phase env xc_id (g_image f) st3 of Inl e \<Rightarrow> Inl e | Inr (image_elt, st4) \<Rightarrow>
       case text_phase env (g_text f) st4 of Inl e \<Rightarrow> Inl e | Inr (text_elt, st5) \<Rightarrow>
       case line_phase env (xget item ''id'') (g_line f) st5 of Inl e \<Rightarrow> Inl e | Inr (line_elt, st6) \<Rightarrow>
       case bind_phase env xc_id rect_elt image_elt text_elt st6 of Inl e \<Rightarrow> Inl e | Inr st7 \<Rightarrow>
         Inr (append_phase rect_elt image_elt text_elt line_elt st7)))"

definition step :: "env \<Rightarrow> ctx \<Rightarrow> xml \<Rightarrow> error + ctx" where
  "step env st item =
     (if el_tag item \<noteq> g_tag then Inr st else process env item (register env item st))"

fun walk :: "env \<Rightarrow> ctx \<Rightarrow> xml list \<Rightarrow> error + ctx" where
  "walk env st [] = Inr st"
| "walk env st (item # items) =
     (case step env st item of Inl e \<Rightarrow> Inl e | Inr st' \<Rightarrow> walk env st' items)"

definition scene_elements :: "ctx \<Rightarrow> element list" where
  "scene_elements st = map (\<lambda>a. heap st ! a) (elements st)"

definition to_model :: "ctx \<Rightarrow> model" where
  "to_model st =
     \<lparr>m_type = ''excalidraw'', m_version = 2, m_source = ''idaes'',
      m_elements = scene_elements st,
      m_appState = \<lparr>gridSize = 20, gridStep = 5, gridModeEnabled = False,
                    viewBackgroundColor = ''#ffffff''\<rparr>,
      m_files = files st\<rparr>"

text \<open>\<open>root.find\<close> returns the first direct child with the tag.\<close>

definition from_svg :: "env \<Rightarrow> xml \<Rightarrow> error + model" where
  "from_svg env doc =
     (case find (\<lambda>c. el_tag c = svg_ns @ ''svg'') (el_children doc) of
        None \<Rightarrow> Inl (ValueError NoSvgTag)
      | Some svg \<Rightarrow>
          (case walk env init_ctx (el_children svg) of
             Inl e \<Rightarrow> Inl e
           | Inr st \<Rightarrow> Inr (to_model st)))"

subsection \<open>Kinds of groups\<close>

text \<open>
  An edge group holds a curve and nothing else that the classification keeps; a unit group
  holds no curve.
\<close>

definition edge_group :: "xml \<Rightarrow> xml \<Rightarrow> bool" where
  "edge_group item pth \<longleftrightarrow>
     el_tag item = g_tag \<and>
     scan_subitems none_found (el_children item) = Inr (none_found\<lparr>g_line := Some pth\<rparr>)"

definition unit_group :: "xml \<Rightarrow> found \<Rightarrow> bool" where
  "unit_group item f \<longleftrightarrow>
     el_tag item = g_tag \<and> scan_subitems none_found (el_children item) = Inr f \<and> g_line f = None"

text \<open>
  The three checks of lines 299 to 311 are the path-format errors; a token that \<open>float()\<close>
  rejects raises another \<open>ValueError\<close>, from \<open>float\<close> itself.
\<close>

fun path_format_error :: "error \<Rightarrow> bool" where
  "path_format_error (ValueError (WrongItemCount n)) = True"
| "path_format_error (ValueError ExpectedM) = True"
| "path_format_error (ValueError ExpectedC) = True"
| "path_format_error e = False"

subsection \<open>What later iterations may change in an element\<close>

text \<open>
  Once an iteration is over, its dictionaries are reachable through \<open>model.elements\<close> and
  \<open>shape_elt_map\<close> only, and the one mutation through \<open>shape_elt_map\<close> appends an arrow to
  \<open>boundElements\<close>.
\<close>

definition arrows_only :: "bound_element list \<Rightarrow> bool" where
  "arrows_only bs = list_all (\<lambda>b. be_type b = ''arrow'') bs"

definition ext :: "element \<Rightarrow> element \<Rightarrow> bool" where
  "ext e e' \<longleftrightarrow>
     (\<exists>bs. arrows_only bs \<and> e' = e\<lparr>boundElements := map_option (\<lambda>xs. xs @ bs) (boundElements e)\<rparr>)"

definition cells_ext :: "ctx \<Rightarrow> ctx \<Rightarrow> bool" where
  "cells_ext st st' \<longleftrightarrow>
     length (heap st) \<le> length (heap st') \<and>
     (\<forall>a < length (heap st). ext (heap st ! a) (heap st' ! a))"

subsection \<open>Addresses\<close>

text \<open>
  The model reads the store at the addresses that \<open>shape_elt_map\<close> and \<open>elements\<close> hold; they
  are addresses of cells that exist.
\<close>

definition addresses_valid :: "ctx \<Rightarrow> bool" where
  "addresses_valid st \<longleftrightarrow>
     list_all (\<lambda>ka. snd ka < length (heap st)) (shape_elt_map st) \<and>
     list_all (\<lambda>a. a < length (heap st)) (elements st)"

subsection \<open>Where the elements of a group stand in the scene\<close>

text \<open>
  An iteration appends its rectangle, its image, its label and its connector, in this order,
  to the elements that are already in the scene.
\<close>

definition rect_index :: "ctx \<Rightarrow> nat" where
  "rect_index st = length (elements st)"

definition image_index :: "ctx \<Rightarrow> found \<Rightarrow> nat" where
  "image_index st f = length (elements st) + (if g_rect f = None then 0 else 1)"

definition label_index :: "ctx \<Rightarrow> found \<Rightarrow> nat" where
  "label_index st f =
     length (elements st) + (if g_rect f = None then 0 else 1) + (if g_image f = None then 0 else 1)"

subsection \<open>Sample inputs\<close>

text \<open>
  A concrete environment and concrete documents, on which the theorems below are
  instantiated. \<open>sample_id\<close> draws 21 characters of the alphabet \<open>IDCHARS\<close>,
  \<open>sample_float\<close> reads plain decimal numerals as \<open>float()\<close> does, and \<open>sample_digest\<close>
  stands in for the digest.
\<close>

definition IDCHARS :: string where
  "IDCHARS = ''ABCDEFGHIJKLMNOPQRSTUVWXYZabcdefghijklmnopqrstuvwxyz0123456789''"

definition sample_id :: "nat \<Rightarrow> string" where
  "sample_id n = replicate 20 (CHR ''A'') @ [IDCHARS ! (n mod 62)]"

definition sample_float :: "string \<Rightarrow> rat option" where
  "sample_float s =
     (let (sgn, r) = (case s of [] \<Rightarrow> (1, s) | c # cs \<Rightarrow> if c = CHR ''-'' then (- 1, cs) else (1, s));
          ip = takeWhile is_digit r;
          r1 = drop (length ip) r
      in if ip = [] then None
         else (case r1 of
                 [] \<Rightarrow> Some (sgn * of_int (int_of_digits ip))
               | c # fp \<Rightarrow>
                   if c = CHR ''.'' \<and> list_all is_digit fp
                   then Some (sgn * (of_int (int_of_digits (ip @ fp)) / 10 ^ length fp))
                   else None))"

definition sample_digest :: "string \<Rightarrow> string" where
  "sample_digest s = ''sha1:'' @ s"

definition sample_env :: env where
  "sample_env = \<lparr>rand_id = sample_id, pyfloat = sample_float, sha1_hex = sample_digest\<rparr>"

definition svg_elem :: "string \<Rightarrow> (string \<times> string) list \<Rightarrow> xml list \<Rightarrow> xml" where
  "svg_elem t as cs = Element (svg_ns @ t) as None cs"

definition label_elem :: "string \<Rightarrow> string \<Rightarrow> xml" where
  "label_elem name style =
     Element (svg_ns @ ''text'') [(''x'', ''78.000000''), (''y'', ''90.500000''), (''style'', style)]
       (Some name) []"

definition rect_unit :: "string \<Rightarrow> string \<Rightarrow> string \<Rightarrow> string \<Rightarrow> string \<Rightarrow> string \<Rightarrow> xml" where
  "rect_unit name vx vy vw vh style =
     svg_elem ''g'' [(''id'', name)]
       [svg_elem ''g'' [(''class'', ''shape'')]
          [svg_elem ''rect'' [(''x'', vx), (''y'', vy), (''width'', vw), (''height'', vh)] []],
        label_elem name style]"

definition image_unit :: "string \<Rightarrow> string \<Rightarrow> string \<Rightarrow> string \<Rightarrow> string \<Rightarrow> string \<Rightarrow> string \<Rightarrow> xml" where
  "image_unit name href vx vy vw vh style =
     svg_elem ''g'' [(''id'', name)]
       [svg_elem ''g'' [(''class'', ''shape'')]
          [svg_elem ''image''
             [(''href'', href), (''x'', vx), (''y'', vy), (''width'', vw), (''height'', vh)] []],
        label_elem name style]"

definition edge_item :: "string \<Rightarrow> (string \<times> string) list \<Rightarrow> xml" where
  "edge_item name path_attrs = svg_elem ''g'' [(''id'', name)] [svg_elem ''path'' path_attrs []]"

definition document :: "xml list \<Rightarrow> xml" where
  "document groups = svg_elem ''svg'' [] [svg_elem ''svg'' [] groups]"

definition unit_A :: xml where
  "unit_A = rect_unit ''Unit_A'' ''12.000000'' ''52.000000'' ''132.000000'' ''66.000000''
              ''text-anchor:middle;font-size:16px''"

definition unit_B :: xml where
  "unit_B = rect_unit ''Unit_B'' ''286.000000'' ''120.000000'' ''132.000000'' ''66.000000''
              ''text-anchor:middle;font-size:16px''"

definition unit_I :: xml where
  "unit_I = image_unit ''Unit_I'' ''data:image/svg+xml;base64,PD94'' ''228.000000'' ''166.000000''
              ''128.000000'' ''128.000000'' ''text-anchor:middle;font-size:16px''"

definition edge_AB :: xml where
  "edge_AB = edge_item ''(Unit_A -> Unit_B)[0]''
               [(''d'', ''M 146.5 85.5 C 200.25 85.5 230 153 284.5 153.75'')]"

definition edge_AB_straight :: xml where
  "edge_AB_straight = edge_item ''(Unit_A -> Unit_B)[0]'' []"

text \<open>The context after the two rectangle units, and the two kinds of path element.\<close>

definition st_AB :: ctx where
  "st_AB = projr (walk sample_env init_ctx [unit_A, unit_B])"

definition path_AB :: xml where
  "path_AB = svg_elem ''path'' [(''d'', ''M 146.5 85.5 C 200.25 85.5 230 153 284.5 153.75'')] []"

definition path_plain :: xml where
  "path_plain = svg_elem ''path'' [] []"

text \<open>An edge to a unit that is never declared, and an edge with a short path.\<close>

definition path_short :: xml where
  "path_short = svg_elem ''path'' [(''d'', ''M 1 2'')] []"

definition edge_AZ :: xml where
  "edge_AZ = edge_item ''(Unit_A -> Unit_Z)'' [(''d'', ''M 1 2'')]"

definition edge_AB_short :: xml where
  "edge_AB_short = edge_item ''(Unit_A -> Unit_B)[0]'' [(''d'', ''M 1 2'')]"

text \<open>Whole documents.\<close>

definition doc_AB_straight :: xml where
  "doc_AB_straight = document [unit_A, unit_B, edge_AB_straight]"

definition doc_AZ :: xml where
  "doc_AZ = document [unit_A, unit_B, edge_AZ]"

definition doc_AB_short :: xml where
  "doc_AB_short = document [unit_A, unit_B, edge_AB_short]"

text \<open>The classification of the sample units, and the contexts after them.\<close>

definition found_A :: found where
  "found_A = projr (scan_subitems none_found (el_children unit_A))"

definition found_I :: found where
  "found_I = projr (scan_subitems none_found (el_children unit_I))"

definition st_A :: ctx where
  "st_A = projr (step sample_env init_ctx unit_A)"

definition st_ABe :: ctx where
  "st_ABe = projr (walk sample_env st_A [unit_B, edge_AB])"

definition st_I :: ctx where
  "st_I = projr (step sample_env init_ctx unit_I)"

text \<open>An image unit whose image is 8 pixels high, and the documents of one image unit.\<close>

definition unit_I8 :: xml where
  "unit_I8 = image_unit ''Unit_I'' ''data:image/svg+xml;base64,PD94'' ''228.000000'' ''166.000000''
               ''128.000000'' ''8.000000'' ''text-anchor:middle;font-size:16px''"

definition doc_I :: xml where
  "doc_I = document [unit_I]"

definition doc_I8 :: xml where
  "doc_I8 = document [unit_I8]"

text \<open>The context after the same image unit twice.\<close>

definition st_II :: ctx where
  "st_II = projr (step sample_env st_I unit_I)"

text \<open>An edge group whose id has no blank, and an edge that names it.\<close>

definition path_ok :: xml where
  "path_ok = svg_elem ''path'' [(''d'', ''M 1 2 C 3 4 5 6 7 8'')] []"

definition edge_AA :: xml where
  "edge_AA = edge_item ''(Unit_A->Unit_A)'' [(''d'', ''M 1 2 C 3 4 5 6 7 8'')]"

definition edge_on_edge :: xml where
  "edge_on_edge = edge_item ''((Unit_A->Unit_A) -> Unit_A)'' [(''d'', ''M 1 2 C 3 4 5 6 7 8'')]"

definition st_AA :: ctx where
  "st_AA = projr (walk sample_env init_ctx [unit_A, edge_AA])"

section \<open>Properties\<close>

subsection \<open>The store under later iterations\<close>

lemma register_eq:
  "register env item st =
     (rand_id env (nxt st),
      st\<lparr>nxt := Suc (nxt st),
         svg_xc_map := AList.update (xget item ''id'') (rand_id env (nxt st)) (svg_xc_map st)\<rparr>)"
  by (simp add: register_def element_id_def)

lemma ext_refl: "ext e e"
  unfolding ext_def by (rule exI [of _ "[]"]) (simp add: arrows_only_def option.map_ident)

lemma ext_trans: "ext e1 e2 \<Longrightarrow> ext e2 e3 \<Longrightarrow> ext e1 e3"
  unfolding ext_def
  apply (elim exE conjE)
  subgoal for bs cs
    by (rule exI [of _ "bs @ cs"]) (simp add: arrows_only_def option.map_comp comp_def)
  done

lemma ext_None: "ext e e' \<Longrightarrow> boundElements e = None \<Longrightarrow> e' = e"
  unfolding ext_def by auto

lemma ext_Some:
  "ext e e' \<Longrightarrow> boundElements e = Some bs \<Longrightarrow> \<exists>cs. arrows_only cs \<and> boundElements e' = Some (bs @ cs)"
  unfolding ext_def by auto

lemma ext_fields:
  assumes "ext e e'"
  shows "elt_id e' = elt_id e" "elt_type e' = elt_type e" "elt_x e' = elt_x e" "elt_y e' = elt_y e"
    "elt_width e' = elt_width e" "elt_height e' = elt_height e" "groupIds e' = groupIds e"
    "points e' = points e" "fileId e' = fileId e" "elt_text e' = elt_text e"
    "fontSize e' = fontSize e" "containerId e' = containerId e"
    "startBinding e' = startBinding e" "endBinding e' = endBinding e"
  using assms unfolding ext_def by auto

lemma cells_ext_refl: "cells_ext st st"
  by (simp add: cells_ext_def ext_refl)

lemma cells_ext_trans: "cells_ext s1 s2 \<Longrightarrow> cells_ext s2 s3 \<Longrightarrow> cells_ext s1 s3"
  unfolding cells_ext_def by (meson ext_trans le_trans less_le_trans)

lemma append_bound_arrow:
  assumes "append_bound (arrow_bound i) a st = Inr st'"
  shows "cells_ext st st'" "length (heap st') = length (heap st)"
    "nxt st' = nxt st \<and> svg_xc_map st' = svg_xc_map st \<and> shape_bounds st' = shape_bounds st \<and>
     shape_elt_map st' = shape_elt_map st \<and> bounds_var st' = bounds_var st \<and>
     elements st' = elements st \<and> files st' = files st"
proof -
  from assms obtain bs where bs: "boundElements (heap st ! a) = Some bs"
    and st': "st' = modify a (\<lambda>e. e\<lparr>boundElements := Some (bs @ [arrow_bound i])\<rparr>) st"
    by (auto simp: append_bound_def split: option.splits)
  show "length (heap st') = length (heap st)" by (simp add: st' modify_def)
  show "nxt st' = nxt st \<and> svg_xc_map st' = svg_xc_map st \<and> shape_bounds st' = shape_bounds st \<and>
     shape_elt_map st' = shape_elt_map st \<and> bounds_var st' = bounds_var st \<and>
     elements st' = elements st \<and> files st' = files st"
    by (simp add: st' modify_def)
  have "ext (heap st ! c) (heap st' ! c)" if "c < length (heap st)" for c
  proof (cases "c = a")
    case True
    have "ext (heap st ! a) ((heap st ! a)\<lparr>boundElements := Some (bs @ [arrow_bound i])\<rparr>)"
      unfolding ext_def
      by (rule exI [of _ "[arrow_bound i]"]) (simp add: bs arrows_only_def arrow_bound_def)
    with True that show ?thesis by (simp add: st' modify_def)
  next
    case False
    then show ?thesis by (simp add: st' modify_def ext_refl)
  qed
  then show "cells_ext st st'" by (simp add: cells_ext_def st' modify_def)
qed

lemma first_someD: "first_some f xs = Some y \<Longrightarrow> \<exists>x\<in>set xs. f x = Some y"
  by (induction xs) (auto split: option.splits)

lemma match_endpoints_at_shorter:
  assumes "match_endpoints_at s = Some (a, b)"
  shows "length a < length s \<and> length b < length s"
proof (cases s)
  case Nil
  with assms show ?thesis by (simp add: match_endpoints_at_def)
next
  case (Cons c r)
  with assms obtain n1 k1 k2 n2 where "a = take n1 r"
    and "b = take n2 (drop k2 (drop 2 (drop k1 (drop n1 r))))"
    by (auto simp: match_endpoints_at_def Let_def split: if_splits dest!: first_someD)
  with Cons show ?thesis by (auto simp: min_def)
qed

lemma search_endpoints_shorter:
  assumes "search_endpoints s = Some (a, b)"
  shows "length a < length s \<and> length b < length s"
proof -
  from assms obtain i where "match_endpoints_at (drop i s) = Some (a, b)"
    by (auto simp: search_endpoints_def dest!: first_someD)
  from match_endpoints_at_shorter [OF this] show ?thesis by auto
qed

lemma search_endpoints_neq:
  "search_endpoints s = Some (a, b) \<Longrightarrow> a \<noteq> s \<and> b \<noteq> s"
  using search_endpoints_shorter by blast

lemma process_edge:
  assumes "edge_group item pth"
  shows "process env item (xc, st) =
     (case line_phase env (xget item ''id'') (Some pth) st of
        Inl e \<Rightarrow> Inl e
      | Inr (l, st6) \<Rightarrow> Inr (append_phase None None None l st6))"
  using assms
  by (simp add: process_def edge_group_def none_found_def rect_phase_def image_phase_def
      text_phase_def bind_phase_def split: sum.splits)

lemma cells_ext_alloc: "cells_ext st (st\<lparr>nxt := n, heap := heap st @ [e]\<rparr>)"
  by (simp add: cells_ext_def nth_append ext_refl)

lemma cells_extD: "cells_ext st st' \<Longrightarrow> a < length (heap st) \<Longrightarrow> ext (heap st ! a) (heap st' ! a)"
  by (simp add: cells_ext_def)

lemma line_phase_Inr:
  assumes "line_phase env (Some iid) (Some g) st = Inr (l, st')"
  obtains u1 u2 sid eid sb eb pts where
    "search_endpoints iid = Some (u1, u2)"
    "map_of (svg_xc_map st) (Some u1) = Some sid"
    "map_of (svg_xc_map st) (Some u2) = Some eid"
    "line_geometry env (shape_bounds st) sid eid (xget g ''d'') = Inr (sb, eb, pts)"
    "l = Some (length (heap st))"
    "length (heap st') = Suc (length (heap st))"
    "heap st' ! length (heap st) = arrow_element (rand_id env (nxt st)) sb eb pts sid eid"
    "cells_ext st st'"
    "nxt st' = Suc (nxt st) \<and> svg_xc_map st' = svg_xc_map st \<and> shape_bounds st' = shape_bounds st \<and>
     shape_elt_map st' = shape_elt_map st \<and> bounds_var st' = bounds_var st \<and>
     elements st' = elements st \<and> files st' = files st"
proof -
  define lid where "lid = rand_id env (nxt st)"
  from assms obtain u1 u2 sid eid sb eb pts sa ea st3 where
    se: "search_endpoints iid = Some (u1, u2)"
    and m1: "map_of (svg_xc_map st) (Some u1) = Some sid"
    and m2: "map_of (svg_xc_map st) (Some u2) = Some eid"
    and lg: "line_geometry env (shape_bounds st) sid eid (xget g ''d'') = Inr (sb, eb, pts)"
    and l: "l = Some (length (heap st))"
    and a1: "append_bound (arrow_bound lid) sa
               (st\<lparr>nxt := Suc (nxt st), heap := heap st @ [arrow_element lid sb eb pts sid eid]\<rparr>) = Inr st3"
    and a2: "append_bound (arrow_bound lid) ea st3 = Inr st'"
    by (auto simp: line_phase_def element_id_def alloc_def lid_def
        split: option.splits sum.splits prod.splits)
  let ?st2 = "st\<lparr>nxt := Suc (nxt st), heap := heap st @ [arrow_element lid sb eb pts sid eid]\<rparr>"
  note f1 = append_bound_arrow [OF a1] and f2 = append_bound_arrow [OF a2]
  have len: "length (heap st') = Suc (length (heap st))"
    using f1(2) f2(2) by simp
  have c23: "cells_ext ?st2 st'" using f1(1) f2(1) by (rule cells_ext_trans)
  have "ext (heap ?st2 ! length (heap st)) (heap st' ! length (heap st))"
    by (rule cells_extD [OF c23]) simp
  then have cell: "heap st' ! length (heap st) = arrow_element lid sb eb pts sid eid"
    by (auto dest!: ext_None simp: arrow_element_def)
  have ce: "cells_ext st st'"
    using cells_ext_trans [OF cells_ext_alloc c23] .
  have st': "nxt st' = Suc (nxt st) \<and> svg_xc_map st' = svg_xc_map st \<and> shape_bounds st' = shape_bounds st \<and>
     shape_elt_map st' = shape_elt_map st \<and> bounds_var st' = bounds_var st \<and>
     elements st' = elements st \<and> files st' = files st"
    using f1(3) f2(3) by simp
  show ?thesis
    using that [OF se m1 m2 lg l len _ ce st'] cell by (simp add: lid_def)
qed

lemma rect_phase_None [simp]: "rect_phase env xc None st = Inr (None, st)"
  by (simp add: rect_phase_def)

lemma image_phase_None [simp]: "image_phase env xc None st = Inr (None, st)"
  by (simp add: image_phase_def)

lemma text_phase_None [simp]: "text_phase env None st = Inr (None, st)"
  by (simp add: text_phase_def)

lemma line_phase_None [simp]: "line_phase env iid None st = Inr (None, st)"
  by (simp add: line_phase_def)

lemma rect_phase_Inr:
  assumes "rect_phase env xc (Some g) st = Inr (r, st')"
  obtains b where "read_bounds env g = Inr b" "r = Some (length (heap st))"
    "st' = st\<lparr>shape_bounds := AList.update xc b (shape_bounds st),
              shape_elt_map := AList.update xc (length (heap st)) (shape_elt_map st),
              bounds_var := Some b,
              heap := heap st @ [shape_element Rectangle xc b None]\<rparr>"
  using assms by (auto simp: rect_phase_def alloc_def split: sum.splits)

lemma image_phase_Inr:
  assumes "image_phase env xc (Some g) st = Inr (i, st')"
  obtains b d where "read_bounds env g = Inr b" "xget g ''href'' = Some d"
    "i = Some (length (heap st), image_id env d,
               \<lparr>mimeType = ''image/svg+xml'', file_id = image_id env d, dataURL = d\<rparr>)"
    "st' = st\<lparr>shape_bounds := AList.update xc b (shape_bounds st),
              shape_elt_map := AList.update xc (length (heap st)) (shape_elt_map st),
              bounds_var := Some b,
              heap := heap st @ [shape_element Image xc b (Some (image_id env d))]\<rparr>"
  using assms by (auto simp: image_phase_def alloc_def Let_def split: sum.splits option.splits)

lemma text_phase_Inr:
  assumes "text_phase env (Some g) st = Inr (t, st')"
  obtains b tv where "bounds_var st = Some b" "el_text g = Some tv"
    "t = Some (length (heap st), rand_id env (nxt st),
               font_size_of (case xget g ''style'' of None \<Rightarrow> [] | Some s \<Rightarrow> s))"
    "st' = st\<lparr>nxt := Suc (nxt st),
              heap := heap st @ [text_element (rand_id env (nxt st)) b
                (font_size_of (case xget g ''style'' of None \<Rightarrow> [] | Some s \<Rightarrow> s)) (strip tv)]\<rparr>"
  using assms
  by (auto simp: text_phase_def alloc_def element_id_def Let_def split: sum.splits option.splits)

lemma cells_ext_app: "heap st' = heap st @ es \<Longrightarrow> cells_ext st st'"
  by (simp add: cells_ext_def nth_append ext_refl)

lemma rect_phase_frame:
  assumes "rect_phase env xc gr st = Inr (r, st')"
  shows "cells_ext st st'" "elements st' = elements st" "files st' = files st"
    "svg_xc_map st' = svg_xc_map st" "nxt st' = nxt st"
    "\<And>a. r = Some a \<Longrightarrow> length (heap st) \<le> a \<and> a < length (heap st')"
proof -
  have "cells_ext st st' \<and> elements st' = elements st \<and> files st' = files st \<and>
    svg_xc_map st' = svg_xc_map st \<and> nxt st' = nxt st \<and>
    (\<forall>a. r = Some a \<longrightarrow> length (heap st) \<le> a \<and> a < length (heap st'))"
  proof (cases gr)
    case None
    with assms show ?thesis by (auto simp: cells_ext_refl)
  next
    case (Some g)
    with assms show ?thesis
      by (auto elim!: rect_phase_Inr intro: cells_ext_app)
  qed
  then show "cells_ext st st'" "elements st' = elements st" "files st' = files st"
    "svg_xc_map st' = svg_xc_map st" "nxt st' = nxt st"
    "\<And>a. r = Some a \<Longrightarrow> length (heap st) \<le> a \<and> a < length (heap st')"
    by auto
qed

lemma image_phase_frame:
  assumes "image_phase env xc gi st = Inr (i, st')"
  shows "cells_ext st st'" "elements st' = elements st" "files st' = files st"
    "svg_xc_map st' = svg_xc_map st" "nxt st' = nxt st"
    "\<And>a x y. i = Some (a, x, y) \<Longrightarrow> length (heap st) \<le> a \<and> a < length (heap st')"
proof -
  have "cells_ext st st' \<and> elements st' = elements st \<and> files st' = files st \<and>
    svg_xc_map st' = svg_xc_map st \<and> nxt st' = nxt st \<and>
    (\<forall>a x y. i = Some (a, x, y) \<longrightarrow> length (heap st) \<le> a \<and> a < length (heap st'))"
  proof (cases gi)
    case None
    with assms show ?thesis by (auto simp: cells_ext_refl)
  next
    case (Some g)
    with assms show ?thesis
      by (auto elim!: image_phase_Inr intro: cells_ext_app)
  qed
  then show "cells_ext st st'" "elements st' = elements st" "files st' = files st"
    "svg_xc_map st' = svg_xc_map st" "nxt st' = nxt st"
    "\<And>a x y. i = Some (a, x, y) \<Longrightarrow> length (heap st) \<le> a \<and> a < length (heap st')"
    by auto
qed

lemma text_phase_frame:
  assumes "text_phase env gt st = Inr (t, st')"
  shows "cells_ext st st'" "elements st' = elements st" "files st' = files st"
    "svg_xc_map st' = svg_xc_map st"
    "\<And>a x y. t = Some (a, x, y) \<Longrightarrow> length (heap st) \<le> a \<and> a < length (heap st')"
proof -
  have "cells_ext st st' \<and> elements st' = elements st \<and> files st' = files st \<and>
    svg_xc_map st' = svg_xc_map st \<and>
    (\<forall>a x y. t = Some (a, x, y) \<longrightarrow> length (heap st) \<le> a \<and> a < length (heap st'))"
  proof (cases gt)
    case None
    with assms show ?thesis by (auto simp: cells_ext_refl)
  next
    case (Some g)
    with assms show ?thesis
      by (auto elim!: text_phase_Inr intro: cells_ext_app)
  qed
  then show "cells_ext st st'" "elements st' = elements st" "files st' = files st"
    "svg_xc_map st' = svg_xc_map st"
    "\<And>a x y. t = Some (a, x, y) \<Longrightarrow> length (heap st) \<le> a \<and> a < length (heap st')"
    by auto
qed

lemma line_phase_frame:
  assumes "line_phase env iid gl st = Inr (l, st')"
  shows "cells_ext st st'" "elements st' = elements st" "files st' = files st"
    "svg_xc_map st' = svg_xc_map st"
proof -
  have "cells_ext st st' \<and> elements st' = elements st \<and> files st' = files st \<and>
    svg_xc_map st' = svg_xc_map st"
  proof (cases gl)
    case None
    with assms show ?thesis by (auto simp: cells_ext_refl)
  next
    case (Some g)
    with assms obtain i where "iid = Some i"
      by (cases iid) (auto simp: line_phase_def element_id_def split: prod.splits)
    with assms Some have "line_phase env (Some i) (Some g) st = Inr (l, st')" by simp
    then show ?thesis
      by (rule line_phase_Inr) simp
  qed
  then show "cells_ext st st'" "elements st' = elements st" "files st' = files st"
    "svg_xc_map st' = svg_xc_map st"
    by auto
qed

lemma bind_phase_frame:
  assumes "bind_phase env xc r i t st = Inr st'"
    and "\<And>a. r = Some a \<Longrightarrow> n \<le> a"
    and "\<And>a x y. i = Some (a, x, y) \<Longrightarrow> n \<le> a"
    and "\<And>a x y. t = Some (a, x, y) \<Longrightarrow> n \<le> a"
  shows "length (heap st') = length (heap st)" "\<forall>a<n. heap st' ! a = heap st ! a"
    "elements st' = elements st" "files st' = files st" "svg_xc_map st' = svg_xc_map st"
  using assms
  by (auto simp: bind_phase_def append_bound_def modify_def element_id_def Let_def
      split: option.splits sum.splits prod.splits)

lemma append_phase_frame:
  "heap (append_phase r i t l st) = heap st"
  "svg_xc_map (append_phase r i t l st) = svg_xc_map st"
  "\<exists>more. elements (append_phase r i t l st) = elements st @ more"
  by (auto simp: append_phase_def Let_def split: option.splits)

lemma cells_ext_same:
  assumes "cells_ext s s'" "length (heap s'') = length (heap s')"
    "\<forall>a<length (heap s). heap s'' ! a = heap s' ! a"
  shows "cells_ext s s''"
  using assms by (simp add: cells_ext_def)

lemma cells_ext_length: "cells_ext s s' \<Longrightarrow> length (heap s) \<le> length (heap s')"
  by (simp add: cells_ext_def)

lemma process_Inr:
  assumes "process env item (xc, st) = Inr st'"
  shows "\<exists>f r st3 i st4 t st5 l st6 st7.
    scan_subitems none_found (el_children item) = Inr f \<and>
    rect_phase env xc (g_rect f) st = Inr (r, st3) \<and>
    image_phase env xc (g_image f) st3 = Inr (i, st4) \<and>
    text_phase env (g_text f) st4 = Inr (t, st5) \<and>
    line_phase env (xget item ''id'') (g_line f) st5 = Inr (l, st6) \<and>
    bind_phase env xc r i t st6 = Inr st7 \<and>
    st' = append_phase r i t l st7"
  using assms by (simp add: process_def split: sum.splits prod.splits)

lemma process_InrE:
  assumes "process env item (xc, st) = Inr st'"
  obtains f r st3 i st4 t st5 l st6 st7 where
    "scan_subitems none_found (el_children item) = Inr f"
    "rect_phase env xc (g_rect f) st = Inr (r, st3)"
    "image_phase env xc (g_image f) st3 = Inr (i, st4)"
    "text_phase env (g_text f) st4 = Inr (t, st5)"
    "line_phase env (xget item ''id'') (g_line f) st5 = Inr (l, st6)"
    "bind_phase env xc r i t st6 = Inr st7"
    "st' = append_phase r i t l st7"
  using process_Inr [OF assms] by (elim exE conjE) (erule (6) that)

lemma process_frame:
  assumes "process env item (xc, st) = Inr st'"
  shows "cells_ext st st'" "\<exists>more. elements st' = elements st @ more"
    "svg_xc_map st' = svg_xc_map st"
proof -
  from assms obtain f :: found and r st3 i st4 t st5 l st6 st7 where
    rp: "rect_phase env xc (g_rect f) st = Inr (r, st3)"
    and ip: "image_phase env xc (g_image f) st3 = Inr (i, st4)"
    and tp: "text_phase env (g_text f) st4 = Inr (t, st5)"
    and lp: "line_phase env (xget item ''id'') (g_line f) st5 = Inr (l, st6)"
    and bp: "bind_phase env xc r i t st6 = Inr st7"
    and st': "st' = append_phase r i t l st7"
    by (rule process_InrE)
  note R = rect_phase_frame [OF rp] and I = image_phase_frame [OF ip]
    and T = text_phase_frame [OF tp] and L = line_phase_frame [OF lp]
  have l3: "length (heap st) \<le> length (heap st3)" using R(1) by (rule cells_ext_length)
  have l4: "length (heap st3) \<le> length (heap st4)" using I(1) by (rule cells_ext_length)
  have c6: "cells_ext st st6"
    using R(1) I(1) T(1) L(1) by (blast intro: cells_ext_trans)
  have h1: "n0 \<le> a" if "r = Some a" "n0 = length (heap st)" for a n0
    using R(6) [OF that(1)] that(2) by simp
  have h2: "n0 \<le> a" if "i = Some (a, x, y)" "n0 = length (heap st)" for a x y n0
    using I(6) [OF that(1)] l3 that(2) by simp
  have h3: "n0 \<le> a" if "t = Some (a, x, y)" "n0 = length (heap st)" for a x y n0
    using T(5) [OF that(1)] l3 l4 that(2) by simp
  have B: "length (heap st7) = length (heap st6)" "\<forall>a<length (heap st). heap st7 ! a = heap st6 ! a"
    "elements st7 = elements st6" "svg_xc_map st7 = svg_xc_map st6"
    using bind_phase_frame [OF bp, of "length (heap st)"] h1 h2 h3 by blast+
  have "cells_ext st st7" using c6 B(1,2) by (rule cells_ext_same)
  then show "cells_ext st st'"
    by (simp add: cells_ext_def st' append_phase_frame)
  show "\<exists>more. elements st' = elements st @ more"
    using append_phase_frame(3) [of r i t l st7] by (simp add: st' B(3) L(2) T(2) I(2) R(2))
  show "svg_xc_map st' = svg_xc_map st"
    by (simp add: st' append_phase_frame B(4) L(4) T(4) I(4) R(4))
qed

lemma step_frame:
  assumes "step env st item = Inr st'"
  shows "cells_ext st st'" "\<exists>more. elements st' = elements st @ more"
proof -
  have "cells_ext st st' \<and> (\<exists>more. elements st' = elements st @ more)"
  proof (cases "el_tag item = g_tag")
    case False
    with assms show ?thesis by (simp add: step_def cells_ext_refl)
  next
    case True
    with assms have "process env item (rand_id env (nxt st),
      st\<lparr>nxt := Suc (nxt st),
         svg_xc_map := AList.update (xget item ''id'') (rand_id env (nxt st)) (svg_xc_map st)\<rparr>) = Inr st'"
      by (simp add: step_def register_eq)
    from process_frame(1,2) [OF this] show ?thesis
      by (simp add: cells_ext_def)
  qed
  then show "cells_ext st st'" "\<exists>more. elements st' = elements st @ more" by auto
qed

lemma walk_frame:
  "walk env st items = Inr st' \<Longrightarrow>
     cells_ext st st' \<and> (\<exists>more. elements st' = elements st @ more)"
proof (induction items arbitrary: st)
  case Nil
  then show ?case by (simp add: cells_ext_refl)
next
  case (Cons item items)
  from Cons.prems obtain st1 where s: "step env st item = Inr st1" and w: "walk env st1 items = Inr st'"
    by (auto split: sum.splits)
  from step_frame [OF s] Cons.IH [OF w] show ?case
    by (auto intro: cells_ext_trans)
qed

text \<open>An element of the scene after an iteration, seen at the end of the translation.\<close>

lemma scene_frame:
  assumes "walk env st1 items = Inr st2" "k < length (elements st1)"
    "elements st1 ! k < length (heap st1)"
  shows "ext (heap st1 ! (elements st1 ! k)) (scene_elements st2 ! k)"
proof -
  from walk_frame [OF assms(1)] obtain more where c: "cells_ext st1 st2"
    and e: "elements st2 = elements st1 @ more" by auto
  have "scene_elements st2 ! k = heap st2 ! (elements st1 ! k)"
    using assms(2) by (simp add: scene_elements_def e nth_append)
  with cells_extD [OF c assms(3)] show ?thesis by simp
qed

lemma step_group:
  "el_tag item = g_tag \<Longrightarrow>
   step env st item =
     process env item
       (rand_id env (nxt st),
        st\<lparr>nxt := Suc (nxt st),
           svg_xc_map := AList.update (xget item ''id'') (rand_id env (nxt st)) (svg_xc_map st)\<rparr>)"
  by (simp add: step_def register_eq)

lemma step_edge:
  assumes "edge_group item pth"
  shows "step env st item =
     (case line_phase env (xget item ''id'') (Some pth)
             (st\<lparr>nxt := Suc (nxt st),
                 svg_xc_map := AList.update (xget item ''id'') (rand_id env (nxt st)) (svg_xc_map st)\<rparr>) of
        Inl e \<Rightarrow> Inl e
      | Inr (l, st6) \<Rightarrow> Inr (append_phase None None None l st6))"
proof -
  from assms have "el_tag item = g_tag" by (simp add: edge_group_def)
  then show ?thesis by (simp add: step_group process_edge [OF assms])
qed

lemma map_of_registered:
  assumes "search_endpoints iid = Some (u1, u2)"
  shows "map_of (AList.update (Some iid) xc m) (Some u1) = map_of m (Some u1)"
    and "map_of (AList.update (Some iid) xc m) (Some u2) = map_of m (Some u2)"
  using search_endpoints_neq [OF assms] by (auto simp: update_conv')

lemma step_edge_Inr:
  assumes "edge_group item pth" "step env st item = Inr st1"
  obtains iid u1 u2 sid eid sb eb pts where
    "xget item ''id'' = Some iid" "search_endpoints iid = Some (u1, u2)"
    "map_of (svg_xc_map st) (Some u1) = Some sid" "map_of (svg_xc_map st) (Some u2) = Some eid"
    "line_geometry env (shape_bounds st) sid eid (xget pth ''d'') = Inr (sb, eb, pts)"
    "elements st1 = elements st @ [length (heap st)]"
    "length (heap st1) = Suc (length (heap st))"
    "heap st1 ! length (heap st) = arrow_element (rand_id env (Suc (nxt st))) sb eb pts sid eid"
proof -
  let ?st0 = "st\<lparr>nxt := Suc (nxt st),
    svg_xc_map := AList.update (xget item ''id'') (rand_id env (nxt st)) (svg_xc_map st)\<rparr>"
  from assms obtain l st6 where lp0: "line_phase env (xget item ''id'') (Some pth) ?st0 = Inr (l, st6)"
    and st1: "st1 = append_phase None None None l st6"
    by (auto simp: step_edge split: sum.splits)
  from lp0 obtain iid where iid: "xget item ''id'' = Some iid"
    by (cases "xget item ''id''") (auto simp: line_phase_def element_id_def split: prod.splits)
  let ?st2 = "st\<lparr>nxt := Suc (nxt st),
    svg_xc_map := AList.update (Some iid) (rand_id env (nxt st)) (svg_xc_map st)\<rparr>"
  from lp0 have lp: "line_phase env (Some iid) (Some pth) ?st2 = Inr (l, st6)"
    by (simp add: iid)
  from lp show ?thesis
  proof (rule line_phase_Inr)
    fix u1 u2 sid eid sb eb pts
    assume se: "search_endpoints iid = Some (u1, u2)"
      and m1: "map_of (svg_xc_map ?st2) (Some u1) = Some sid"
      and m2: "map_of (svg_xc_map ?st2) (Some u2) = Some eid"
      and lg: "line_geometry env (shape_bounds ?st2) sid eid (xget pth ''d'') = Inr (sb, eb, pts)"
      and l: "l = Some (length (heap ?st2))"
      and len: "length (heap st6) = Suc (length (heap ?st2))"
      and cell: "heap st6 ! length (heap ?st2) = arrow_element (rand_id env (nxt ?st2)) sb eb pts sid eid"
      and st6: "nxt st6 = Suc (nxt ?st2) \<and> svg_xc_map st6 = svg_xc_map ?st2 \<and>
        shape_bounds st6 = shape_bounds ?st2 \<and> shape_elt_map st6 = shape_elt_map ?st2 \<and>
        bounds_var st6 = bounds_var ?st2 \<and> elements st6 = elements ?st2 \<and> files st6 = files ?st2"
    have e: "elements st1 = elements st @ [length (heap st)]"
      using l st6 by (simp add: st1 append_phase_def)
    show ?thesis
      using that [OF iid se _ _ _ e] m1 m2 lg len cell
      by (simp add: map_of_registered [OF se] st1 append_phase_frame)
  qed
qed

text \<open>The connector of an edge group, as it stands in the scene at the end.\<close>

lemma edge_connector:
  assumes "edge_group item pth" "step env st item = Inr st1" "walk env st1 items = Inr st2"
  obtains iid u1 u2 sid eid sb eb pts where
    "xget item ''id'' = Some iid" "search_endpoints iid = Some (u1, u2)"
    "map_of (svg_xc_map st) (Some u1) = Some sid" "map_of (svg_xc_map st) (Some u2) = Some eid"
    "line_geometry env (shape_bounds st) sid eid (xget pth ''d'') = Inr (sb, eb, pts)"
    "scene_elements st2 ! length (elements st) =
       arrow_element (rand_id env (Suc (nxt st))) sb eb pts sid eid"
proof -
  from assms(1,2) show ?thesis
  proof (rule step_edge_Inr)
    fix iid u1 u2 sid eid sb eb pts
    assume iid: "xget item ''id'' = Some iid" and se: "search_endpoints iid = Some (u1, u2)"
      and m1: "map_of (svg_xc_map st) (Some u1) = Some sid"
      and m2: "map_of (svg_xc_map st) (Some u2) = Some eid"
      and lg: "line_geometry env (shape_bounds st) sid eid (xget pth ''d'') = Inr (sb, eb, pts)"
      and e: "elements st1 = elements st @ [length (heap st)]"
      and len: "length (heap st1) = Suc (length (heap st))"
      and cell: "heap st1 ! length (heap st) = arrow_element (rand_id env (Suc (nxt st))) sb eb pts sid eid"
    have "ext (heap st1 ! (elements st1 ! length (elements st))) (scene_elements st2 ! length (elements st))"
      by (rule scene_frame [OF assms(3)]) (simp_all add: e len)
    then have "scene_elements st2 ! length (elements st) =
        arrow_element (rand_id env (Suc (nxt st))) sb eb pts sid eid"
      by (auto simp: e cell arrow_element_def dest!: ext_None)
    with that [OF iid se m1 m2 lg] show ?thesis .
  qed
qed

lemma to_float_Inr [simp]: "to_float env s = Inr r \<longleftrightarrow> pyfloat env s = Some r"
  by (simp add: to_float_def split: option.splits)

lemma to_float_Inl [simp]: "to_float env s = Inl e \<longleftrightarrow> pyfloat env s = None \<and> e = ValueError BadFloat"
  by (auto simp: to_float_def split: option.splits)

lemma line_geometry_None:
  assumes "line_geometry env sbs sid eid None = Inr (sb, eb, pts)"
  shows "map_of sbs sid = Some sb \<and> map_of sbs eid = Some eb \<and>
    pts = [(if b_x eb > b_x sb then b_width sb else 0, b_height sb / 2),
           (b_x eb - b_x sb, b_y eb - b_y sb)]"
  using assms by (auto simp: line_geometry_def Let_def split: option.splits)

lemma line_geometry_Some:
  assumes "line_geometry env sbs sid eid (Some pc) = Inr (sb, eb, pts)"
  shows "\<exists>t1 t2 t4 t5 t8 t9 tx ty.
    10 \<le> length (split_coords pc) \<and> split_coords pc ! 0 = ''M'' \<and> split_coords pc ! 3 = ''C'' \<and>
    pyfloat env (split_coords pc ! 1) = Some t1 \<and> pyfloat env (split_coords pc ! 2) = Some t2 \<and>
    pyfloat env (split_coords pc ! 4) = Some t4 \<and> pyfloat env (split_coords pc ! 5) = Some t5 \<and>
    pyfloat env (split_coords pc ! 8) = Some t8 \<and> pyfloat env (split_coords pc ! 9) = Some t9 \<and>
    pyfloat env (split_coords pc ! (length (split_coords pc) - 2)) = Some tx \<and>
    pyfloat env (split_coords pc ! (length (split_coords pc) - 1)) = Some ty \<and>
    sb = \<lparr>b_x = t1, b_y = t2, b_width = 0, b_height = 0\<rparr> \<and>
    eb = \<lparr>b_x = t8, b_y = t9, b_width = 0, b_height = 0\<rparr> \<and>
    pts = [(0, 0), (t4 - t1, t5 - t2), (tx - t1, ty - t2)]"
proof -
  from assms have "10 \<le> length (split_coords pc) \<and> split_coords pc ! 0 = ''M'' \<and>
    split_coords pc ! 3 = ''C'' \<and>
    (\<exists>t1 t2 t4 t5 t8 t9 tx ty.
    to_float env (split_coords pc ! 1) = Inr t1 \<and> to_float env (split_coords pc ! 2) = Inr t2 \<and>
    to_float env (split_coords pc ! 4) = Inr t4 \<and> to_float env (split_coords pc ! 5) = Inr t5 \<and>
    to_float env (split_coords pc ! 8) = Inr t8 \<and> to_float env (split_coords pc ! 9) = Inr t9 \<and>
    to_float env (split_coords pc ! (length (split_coords pc) - 2)) = Inr tx \<and>
    to_float env (split_coords pc ! (length (split_coords pc) - 1)) = Inr ty \<and>
    sb = \<lparr>b_x = t1, b_y = t2, b_width = 0, b_height = 0\<rparr> \<and>
    eb = \<lparr>b_x = t8, b_y = t9, b_width = 0, b_height = 0\<rparr> \<and>
    pts = [(0, 0), (t4 - t1, t5 - t2), (tx - t1, ty - t2)])"
    unfolding line_geometry_def Let_def
    by (auto simp del: to_float_Inr to_float_Inl split: if_splits sum.splits)
  then show ?thesis by simp
qed

subsection \<open>Sample runs\<close>

lemma walk_AB: "walk sample_env init_ctx [unit_A, unit_B] = Inr st_AB"
  unfolding st_AB_def by code_simp

lemma edge_AB_straight_group: "edge_group edge_AB_straight path_plain"
  by code_simp

lemma edge_AB_group: "edge_group edge_AB path_AB"
  by code_simp

lemma step_AB_straight:
  "step sample_env st_AB edge_AB_straight = Inr (projr (step sample_env st_AB edge_AB_straight))"
  unfolding st_AB_def by code_simp

lemma step_AB_curve:
  "step sample_env st_AB edge_AB = Inr (projr (step sample_env st_AB edge_AB))"
  unfolding st_AB_def by code_simp

subsection \<open>Connector geometry\<close>

text \<open>
  C7. An edge group whose path has no \<open>d\<close>: the source and the target resolve to shapes with
  registered bounds, and the connector's point list has exactly two points. The first is
  (source width if the target's x exceeds the source's x, else 0; half the source height),
  the second is (target x - source x, target y - source y).
\<close>

theorem straight_line_fallback:
  assumes "edge_group item pth" and "xget pth ''d'' = None"
    and "step env st item = Inr st1" and "walk env st1 items = Inr st2"
  shows "\<exists>iid u1 u2 sid eid sb eb.
     xget item ''id'' = Some iid \<and> search_endpoints iid = Some (u1, u2) \<and>
     map_of (svg_xc_map st) (Some u1) = Some sid \<and> map_of (svg_xc_map st) (Some u2) = Some eid \<and>
     map_of (shape_bounds st) sid = Some sb \<and> map_of (shape_bounds st) eid = Some eb \<and>
     elt_type (scene_elements st2 ! length (elements st)) = Arrow \<and>
     points (scene_elements st2 ! length (elements st)) =
       [(if b_x eb > b_x sb then b_width sb else 0, b_height sb / 2),
        (b_x eb - b_x sb, b_y eb - b_y sb)]"
  using assms(1,3,4)
proof (rule edge_connector)
  fix iid u1 u2 sid eid sb eb pts
  assume "xget item ''id'' = Some iid" "search_endpoints iid = Some (u1, u2)"
    "map_of (svg_xc_map st) (Some u1) = Some sid" "map_of (svg_xc_map st) (Some u2) = Some eid"
    and lg: "line_geometry env (shape_bounds st) sid eid (xget pth ''d'') = Inr (sb, eb, pts)"
    and "scene_elements st2 ! length (elements st) =
       arrow_element (rand_id env (Suc (nxt st))) sb eb pts sid eid"
  moreover note line_geometry_None [OF lg [unfolded assms(2)]]
  ultimately show ?thesis by (simp add: arrow_element_def)
qed

theorem straight_line_fallback_witness:
  "edge_group edge_AB_straight path_plain \<and> xget path_plain ''d'' = None \<and>
   step sample_env st_AB edge_AB_straight = Inr (projr (step sample_env st_AB edge_AB_straight)) \<and>
   walk sample_env (projr (step sample_env st_AB edge_AB_straight)) [] =
     Inr (projr (step sample_env st_AB edge_AB_straight)) \<and>
   (\<exists>iid u1 u2 sid eid sb eb.
     xget edge_AB_straight ''id'' = Some iid \<and> search_endpoints iid = Some (u1, u2) \<and>
     map_of (svg_xc_map st_AB) (Some u1) = Some sid \<and> map_of (svg_xc_map st_AB) (Some u2) = Some eid \<and>
     map_of (shape_bounds st_AB) sid = Some sb \<and> map_of (shape_bounds st_AB) eid = Some eb \<and>
     elt_type (scene_elements (projr (step sample_env st_AB edge_AB_straight)) ! length (elements st_AB)) = Arrow \<and>
     points (scene_elements (projr (step sample_env st_AB edge_AB_straight)) ! length (elements st_AB)) =
       [(if b_x eb > b_x sb then b_width sb else 0, b_height sb / 2),
        (b_x eb - b_x sb, b_y eb - b_y sb)])"
proof -
  have d: "xget path_plain ''d'' = None" by code_simp
  have w: "walk sample_env (projr (step sample_env st_AB edge_AB_straight)) [] =
     Inr (projr (step sample_env st_AB edge_AB_straight))" by simp
  show ?thesis
    using straight_line_fallback [OF edge_AB_straight_group d step_AB_straight w]
      edge_AB_straight_group d step_AB_straight w
    by (intro conjI)
qed

lemma line_geometry_path_format:
  "(\<exists>e. line_geometry env sbs sid eid (Some pc) = Inl e \<and> path_format_error e) \<longleftrightarrow>
     (length (split_coords pc) < 10 \<or> split_coords pc ! 0 \<noteq> ''M'' \<or> split_coords pc ! 3 \<noteq> ''C'')"
  unfolding line_geometry_def Let_def
  by (auto split: sum.splits)

lemma append_bound_Inl: "append_bound b a st = Inl e \<Longrightarrow> e = AttributeError"
  by (auto simp: append_bound_def split: option.splits)

lemma line_phase_Inl:
  assumes "line_phase env (Some iid) (Some g) st = Inl e"
    and "search_endpoints iid = Some (u1, u2)"
    and "map_of (svg_xc_map st) (Some u1) = Some sid" "map_of (svg_xc_map st) (Some u2) = Some eid"
  shows "line_geometry env (shape_bounds st) sid eid (xget g ''d'') = Inl e \<or>
    ((\<exists>r. line_geometry env (shape_bounds st) sid eid (xget g ''d'') = Inr r) \<and>
     (e = KeyError ShapeEltMap sid \<or> e = KeyError ShapeEltMap eid \<or> e = AttributeError))"
  using assms
  by (auto simp: line_phase_def element_id_def alloc_def
      split: sum.splits option.splits prod.splits dest: append_bound_Inl)

lemma line_phase_geometry_Inl:
  assumes "line_geometry env (shape_bounds st) sid eid (xget g ''d'') = Inl e"
    and "search_endpoints iid = Some (u1, u2)"
    and "map_of (svg_xc_map st) (Some u1) = Some sid" "map_of (svg_xc_map st) (Some u2) = Some eid"
  shows "line_phase env (Some iid) (Some g) st = Inl e"
  using assms by (simp add: line_phase_def element_id_def)

lemma walk_append:
  "walk env st (xs @ ys) = (case walk env st xs of Inl e \<Rightarrow> Inl e | Inr st' \<Rightarrow> walk env st' ys)"
  by (induction xs arbitrary: st) (auto split: sum.splits)

lemma from_svg_step_fails:
  assumes "find (\<lambda>c. el_tag c = svg_ns @ ''svg'') (el_children doc) = Some svg"
    and "el_children svg = pre @ item # items" and "walk env init_ctx pre = Inr st"
    and "step env st item = Inl e"
  shows "from_svg env doc = Inl e"
  using assms by (simp add: from_svg_def walk_append)



subsection \<open>Endpoint resolution\<close>

lemma step_edge_unresolved:
  assumes "edge_group item pth" "xget item ''id'' = Some iid" "search_endpoints iid = Some (u1, u2)"
  shows "map_of (svg_xc_map st) (Some u1) = None \<Longrightarrow> step env st item = Inl (KeyError SvgXcMap u1)"
    and "map_of (svg_xc_map st) (Some u1) \<noteq> None \<Longrightarrow> map_of (svg_xc_map st) (Some u2) = None \<Longrightarrow>
      step env st item = Inl (KeyError SvgXcMap u2)"
  by (auto simp: step_edge [OF assms(1)] assms(2,3) line_phase_def element_id_def
      map_of_registered [OF assms(3)])

text \<open>
  C2. An edge group whose identifier matches the pattern, with the names \<open>u1\<close> and \<open>u2\<close>: when
  both are keys of the name map, the connector that a successful iteration leaves has the
  mapped ids as the \<open>elementId\<close> of its start and end binding; when one of them is not a
  key, the translation stops with the \<open>KeyError\<close> of the name map for the first missing
  name.
\<close>

theorem endpoint_bindings:
  assumes "edge_group item pth" and "xget item ''id'' = Some iid"
    and "search_endpoints iid = Some (u1, u2)"
  shows "(map_of (svg_xc_map st) (Some u1) = Some sid \<and> map_of (svg_xc_map st) (Some u2) = Some eid \<and>
          step env st item = Inr st1 \<and> walk env st1 items = Inr st2 \<longrightarrow>
            elt_type (scene_elements st2 ! length (elements st)) = Arrow \<and>
            startBinding (scene_elements st2 ! length (elements st)) = Some sid \<and>
            endBinding (scene_elements st2 ! length (elements st)) = Some eid) \<and>
         (map_of (svg_xc_map st) (Some u1) = None \<longrightarrow>
            walk env st (item # items) = Inl (KeyError SvgXcMap u1)) \<and>
         (map_of (svg_xc_map st) (Some u1) \<noteq> None \<and> map_of (svg_xc_map st) (Some u2) = None \<longrightarrow>
            walk env st (item # items) = Inl (KeyError SvgXcMap u2))"
proof (intro conjI impI)
  assume h: "map_of (svg_xc_map st) (Some u1) = Some sid \<and> map_of (svg_xc_map st) (Some u2) = Some eid \<and>
          step env st item = Inr st1 \<and> walk env st1 items = Inr st2"
  then have s: "step env st item = Inr st1" and w: "walk env st1 items = Inr st2" by simp_all
  from assms(1) s w
  have "elt_type (scene_elements st2 ! length (elements st)) = Arrow \<and>
        startBinding (scene_elements st2 ! length (elements st)) = Some sid \<and>
        endBinding (scene_elements st2 ! length (elements st)) = Some eid"
  proof (rule edge_connector)
    fix iid' u1' u2' sid' eid' sb eb pts
    assume "xget item ''id'' = Some iid'" "search_endpoints iid' = Some (u1', u2')"
      "map_of (svg_xc_map st) (Some u1') = Some sid'" "map_of (svg_xc_map st) (Some u2') = Some eid'"
      "scene_elements st2 ! length (elements st) =
         arrow_element (rand_id env (Suc (nxt st))) sb eb pts sid' eid'"
    with assms(2,3) h show ?thesis by (simp add: arrow_element_def)
  qed
  then show "elt_type (scene_elements st2 ! length (elements st)) = Arrow"
    "startBinding (scene_elements st2 ! length (elements st)) = Some sid"
    "endBinding (scene_elements st2 ! length (elements st)) = Some eid" by simp_all
next
  assume "map_of (svg_xc_map st) (Some u1) = None"
  then show "walk env st (item # items) = Inl (KeyError SvgXcMap u1)"
    by (simp add: step_edge_unresolved(1) [OF assms])
next
  assume "map_of (svg_xc_map st) (Some u1) \<noteq> None \<and> map_of (svg_xc_map st) (Some u2) = None"
  then show "walk env st (item # items) = Inl (KeyError SvgXcMap u2)"
    by (simp add: step_edge_unresolved(2) [OF assms])
qed

lemma edge_AZ_group: "edge_group edge_AZ path_short"
  by code_simp

theorem endpoint_bindings_witness:
  "edge_group edge_AB path_AB \<and> xget edge_AB ''id'' = Some ''(Unit_A -> Unit_B)[0]'' \<and>
   search_endpoints ''(Unit_A -> Unit_B)[0]'' = Some (''Unit_A'', ''Unit_B'') \<and>
   map_of (svg_xc_map st_AB) (Some ''Unit_A'') = Some (sample_id 0) \<and>
   map_of (svg_xc_map st_AB) (Some ''Unit_B'') = Some (sample_id 2) \<and>
   step sample_env st_AB edge_AB = Inr (projr (step sample_env st_AB edge_AB)) \<and>
   startBinding (scene_elements (projr (step sample_env st_AB edge_AB)) ! length (elements st_AB)) =
     Some (sample_id 0) \<and>
   endBinding (scene_elements (projr (step sample_env st_AB edge_AB)) ! length (elements st_AB)) =
     Some (sample_id 2) \<and>
   edge_group edge_AZ path_short \<and> xget edge_AZ ''id'' = Some ''(Unit_A -> Unit_Z)'' \<and>
   search_endpoints ''(Unit_A -> Unit_Z)'' = Some (''Unit_A'', ''Unit_Z'') \<and>
   map_of (svg_xc_map st_AB) (Some ''Unit_Z'') = None \<and>
   walk sample_env st_AB [edge_AZ] = Inl (KeyError SvgXcMap ''Unit_Z'')"
proof -
  have i1: "xget edge_AB ''id'' = Some ''(Unit_A -> Unit_B)[0]''" by code_simp
  have s1: "search_endpoints ''(Unit_A -> Unit_B)[0]'' = Some (''Unit_A'', ''Unit_B'')" by code_simp
  have m1: "map_of (svg_xc_map st_AB) (Some ''Unit_A'') = Some (sample_id 0)"
    unfolding st_AB_def by code_simp
  have m2: "map_of (svg_xc_map st_AB) (Some ''Unit_B'') = Some (sample_id 2)"
    unfolding st_AB_def by code_simp
  have w: "walk sample_env (projr (step sample_env st_AB edge_AB)) [] =
     Inr (projr (step sample_env st_AB edge_AB))" by simp
  have i2: "xget edge_AZ ''id'' = Some ''(Unit_A -> Unit_Z)''" by code_simp
  have s2: "search_endpoints ''(Unit_A -> Unit_Z)'' = Some (''Unit_A'', ''Unit_Z'')" by code_simp
  have m3: "map_of (svg_xc_map st_AB) (Some ''Unit_Z'') = None"
    unfolding st_AB_def by code_simp
  have m4: "map_of (svg_xc_map st_AB) (Some ''Unit_A'') \<noteq> None" using m1 by simp
  note a = endpoint_bindings [OF edge_AB_group i1 s1, where env = sample_env and st = st_AB
      and sid = "sample_id 0" and eid = "sample_id 2"
      and ?st1.0 = "projr (step sample_env st_AB edge_AB)" and items = "[]"
      and ?st2.0 = "projr (step sample_env st_AB edge_AB)"]
  note b = endpoint_bindings [OF edge_AZ_group i2 s2, where env = sample_env and st = st_AB
      and items = "[]"]
  from a m1 m2 step_AB_curve w
  have c1: "startBinding (scene_elements (projr (step sample_env st_AB edge_AB)) ! length (elements st_AB)) =
     Some (sample_id 0)"
    and c2: "endBinding (scene_elements (projr (step sample_env st_AB edge_AB)) ! length (elements st_AB)) =
     Some (sample_id 2)" by blast+
  from b m3 m4 have c3: "walk sample_env st_AB [edge_AZ] = Inl (KeyError SvgXcMap ''Unit_Z'')" by blast
  from edge_AB_group i1 s1 m1 m2 step_AB_curve c1 c2 edge_AZ_group i2 s2 m3 c3
  show ?thesis by (intro conjI)
qed

subsection \<open>The first point of a connector\<close>




subsection \<open>The format check of the curve data\<close>

lemma step_edge_resolved:
  assumes "edge_group item pth" "xget item ''id'' = Some iid" "search_endpoints iid = Some (u1, u2)"
    "map_of (svg_xc_map st) (Some u1) = Some sid" "map_of (svg_xc_map st) (Some u2) = Some eid"
  shows "step env st item = Inl e \<longleftrightarrow>
    line_phase env (Some iid) (Some pth)
      (st\<lparr>nxt := Suc (nxt st),
          svg_xc_map := AList.update (Some iid) (rand_id env (nxt st)) (svg_xc_map st)\<rparr>) = Inl e"
  by (auto simp: step_edge [OF assms(1)] assms(2) split: sum.splits)

text \<open>
  C5, as the code has it. For an edge group with curve data whose identifier matches the
  pattern and whose two names are keys of the name map, the iteration fails at one of the
  three format checks exactly when the data, split at the runs of commas and spaces, has
  fewer than 10 tokens, or token 0 is not \<open>M\<close>, or token 3 is not \<open>C\<close>. Whatever the failure
  of the iteration, the translation fails with it and returns no scene.
\<close>

theorem path_format_check:
  assumes "edge_group item pth" and "xget pth ''d'' = Some pc"
    and "xget item ''id'' = Some iid" and "search_endpoints iid = Some (u1, u2)"
    and "map_of (svg_xc_map st) (Some u1) = Some sid" and "map_of (svg_xc_map st) (Some u2) = Some eid"
  shows "((\<exists>e. step env st item = Inl e \<and> path_format_error e) \<longleftrightarrow>
            (length (split_coords pc) < 10 \<or> split_coords pc ! 0 \<noteq> ''M'' \<or> split_coords pc ! 3 \<noteq> ''C'')) \<and>
         (find (\<lambda>c. el_tag c = svg_ns @ ''svg'') (el_children doc) = Some svg \<and>
          el_children svg = pre @ item # items \<and> walk env init_ctx pre = Inr st \<and>
          step env st item = Inl e' \<longrightarrow> from_svg env doc = Inl e')"
proof (intro conjI impI)
  let ?st2 = "st\<lparr>nxt := Suc (nxt st),
          svg_xc_map := AList.update (Some iid) (rand_id env (nxt st)) (svg_xc_map st)\<rparr>"
  note r = step_edge_resolved [OF assms(1,3,4,5,6)]
  have m: "map_of (svg_xc_map ?st2) (Some u1) = Some sid" "map_of (svg_xc_map ?st2) (Some u2) = Some eid"
    using assms(5,6) by (simp_all add: map_of_registered [OF assms(4)])
  show "(\<exists>e. step env st item = Inl e \<and> path_format_error e) \<longleftrightarrow>
            (length (split_coords pc) < 10 \<or> split_coords pc ! 0 \<noteq> ''M'' \<or> split_coords pc ! 3 \<noteq> ''C'')"
  proof
    assume "\<exists>e. step env st item = Inl e \<and> path_format_error e"
    then obtain e where e: "line_phase env (Some iid) (Some pth) ?st2 = Inl e" and p: "path_format_error e"
      by (auto simp: r)
    from line_phase_Inl [OF e assms(4) m] p
    have "line_geometry env (shape_bounds ?st2) sid eid (Some pc) = Inl e"
      by (auto simp: assms(2))
    with p show "length (split_coords pc) < 10 \<or> split_coords pc ! 0 \<noteq> ''M'' \<or> split_coords pc ! 3 \<noteq> ''C''"
      using line_geometry_path_format by blast
  next
    assume "length (split_coords pc) < 10 \<or> split_coords pc ! 0 \<noteq> ''M'' \<or> split_coords pc ! 3 \<noteq> ''C''"
    then obtain e where g: "line_geometry env (shape_bounds ?st2) sid eid (Some pc) = Inl e"
      and p: "path_format_error e"
      using line_geometry_path_format by blast
    from g have "line_geometry env (shape_bounds ?st2) sid eid (xget pth ''d'') = Inl e"
      by (simp add: assms(2))
    from line_phase_geometry_Inl [OF this assms(4) m] p
    show "\<exists>e. step env st item = Inl e \<and> path_format_error e"
      by (auto simp: r)
  qed
next
  assume "find (\<lambda>c. el_tag c = svg_ns @ ''svg'') (el_children doc) = Some svg \<and>
          el_children svg = pre @ item # items \<and> walk env init_ctx pre = Inr st \<and>
          step env st item = Inl e'"
  then show "from_svg env doc = Inl e'"
    using from_svg_step_fails by blast
qed

lemma edge_AB_short_group: "edge_group edge_AB_short path_short"
  by code_simp

theorem path_format_check_witness:
  "edge_group edge_AB_short path_short \<and> xget path_short ''d'' = Some ''M 1 2'' \<and>
   xget edge_AB_short ''id'' = Some ''(Unit_A -> Unit_B)[0]'' \<and>
   search_endpoints ''(Unit_A -> Unit_B)[0]'' = Some (''Unit_A'', ''Unit_B'') \<and>
   map_of (svg_xc_map st_AB) (Some ''Unit_A'') = Some (sample_id 0) \<and>
   map_of (svg_xc_map st_AB) (Some ''Unit_B'') = Some (sample_id 2) \<and>
   length (split_coords ''M 1 2'') < 10 \<and>
   step sample_env st_AB edge_AB_short = Inl (ValueError (WrongItemCount 3)) \<and>
   path_format_error (ValueError (WrongItemCount 3)) \<and>
   find (\<lambda>c. el_tag c = svg_ns @ ''svg'') (el_children doc_AB_short) =
     Some (svg_elem ''svg'' [] [unit_A, unit_B, edge_AB_short]) \<and>
   el_children (svg_elem ''svg'' [] [unit_A, unit_B, edge_AB_short]) = [unit_A, unit_B] @ edge_AB_short # [] \<and>
   walk sample_env init_ctx [unit_A, unit_B] = Inr st_AB \<and>
   from_svg sample_env doc_AB_short = Inl (ValueError (WrongItemCount 3))"
proof -
  have d: "xget path_short ''d'' = Some ''M 1 2''" by code_simp
  have i: "xget edge_AB_short ''id'' = Some ''(Unit_A -> Unit_B)[0]''" by code_simp
  have s: "search_endpoints ''(Unit_A -> Unit_B)[0]'' = Some (''Unit_A'', ''Unit_B'')" by code_simp
  have m1: "map_of (svg_xc_map st_AB) (Some ''Unit_A'') = Some (sample_id 0)"
    unfolding st_AB_def by code_simp
  have m2: "map_of (svg_xc_map st_AB) (Some ''Unit_B'') = Some (sample_id 2)"
    unfolding st_AB_def by code_simp
  have l: "length (split_coords ''M 1 2'') < 10" by code_simp
  have f: "find (\<lambda>c. el_tag c = svg_ns @ ''svg'') (el_children doc_AB_short) =
     Some (svg_elem ''svg'' [] [unit_A, unit_B, edge_AB_short])"
    by (simp add: doc_AB_short_def document_def svg_elem_def)
  have c: "el_children (svg_elem ''svg'' [] [unit_A, unit_B, edge_AB_short]) =
     [unit_A, unit_B] @ edge_AB_short # []"
    by (simp add: svg_elem_def)
  note t = path_format_check [OF edge_AB_short_group d i s m1 m2, where env = sample_env
      and doc = doc_AB_short and svg = "svg_elem ''svg'' [] [unit_A, unit_B, edge_AB_short]"
      and pre = "[unit_A, unit_B]" and items = "[]" and e' = "ValueError (WrongItemCount 3)"]
  from t l obtain e where e: "step sample_env st_AB edge_AB_short = Inl e" "path_format_error e"
    by blast
  have v: "step sample_env st_AB edge_AB_short = Inl (ValueError (WrongItemCount 3))"
    unfolding st_AB_def by code_simp
  from t f c walk_AB v have r: "from_svg sample_env doc_AB_short = Inl (ValueError (WrongItemCount 3))"
    by blast
  have p: "path_format_error (ValueError (WrongItemCount 3))" by simp
  from edge_AB_short_group d i s m1 m2 l v p f c walk_AB r show ?thesis by (intro conjI)
qed

text \<open>
  The claim as stated fails when a name does not resolve: the data \<open>M 1 2\<close> has three
  tokens, yet the translation stops with the \<open>KeyError\<close> of the name map, which is raised
  before the data is read.
\<close>

theorem path_format_check_counterexample:
  "edge_group edge_AZ path_short \<and> xget path_short ''d'' = Some ''M 1 2'' \<and>
   length (split_coords ''M 1 2'') < 10 \<and>
   from_svg sample_env doc_AZ = Inl (KeyError SvgXcMap ''Unit_Z'') \<and>
   \<not> path_format_error (KeyError SvgXcMap ''Unit_Z'')"
  by code_simp

text \<open>
  The tokenizer splits at commas and spaces only: data separated by tabs is one token.
\<close>

lemma split_coords_tab:
  "length (split_coords (''M'' @ [CHR 0x09] @ ''1'' @ [CHR 0x09] @ ''2'' @ [CHR 0x09] @ ''C'')) = 1"
  by code_simp

subsection \<open>Unit groups\<close>

lemma step_unit_Inr:
  assumes "unit_group item f" "step env st item = Inr st1"
  obtains r st3 i st4 t st5 st7 where
    "rect_phase env (rand_id env (nxt st)) (g_rect f)
       (st\<lparr>nxt := Suc (nxt st),
           svg_xc_map := AList.update (xget item ''id'') (rand_id env (nxt st)) (svg_xc_map st)\<rparr>) = Inr (r, st3)"
    "image_phase env (rand_id env (nxt st)) (g_image f) st3 = Inr (i, st4)"
    "text_phase env (g_text f) st4 = Inr (t, st5)"
    "bind_phase env (rand_id env (nxt st)) r i t st5 = Inr st7"
    "st1 = append_phase r i t None st7"
proof -
  from assms(1) have g: "el_tag item = g_tag"
    and sc: "scan_subitems none_found (el_children item) = Inr f" and l: "g_line f = None"
    by (simp_all add: unit_group_def)
  from assms(2) have "process env item (rand_id env (nxt st),
      st\<lparr>nxt := Suc (nxt st),
         svg_xc_map := AList.update (xget item ''id'') (rand_id env (nxt st)) (svg_xc_map st)\<rparr>) = Inr st1"
    by (simp add: step_group [OF g])
  then show ?thesis
  proof (rule process_InrE)
    fix f' r st3 i st4 t st5 l' st6 st7
    assume "scan_subitems none_found (el_children item) = Inr f'"
    with sc have f': "f' = f" by simp
    assume "rect_phase env (rand_id env (nxt st)) (g_rect f')
       (st\<lparr>nxt := Suc (nxt st),
           svg_xc_map := AList.update (xget item ''id'') (rand_id env (nxt st)) (svg_xc_map st)\<rparr>) = Inr (r, st3)"
      "image_phase env (rand_id env (nxt st)) (g_image f') st3 = Inr (i, st4)"
      "text_phase env (g_text f') st4 = Inr (t, st5)"
      "line_phase env (xget item ''id'') (g_line f') st5 = Inr (l', st6)"
      "bind_phase env (rand_id env (nxt st)) r i t st6 = Inr st7"
      "st1 = append_phase r i t l' st7"
    with f' l show ?thesis by (intro that [of r st3 i st4 t st5 st7]) auto
  qed
qed

text \<open>A unit group with a rectangle and a label (and perhaps an image in a second container).\<close>

lemma rect_label_step:
  assumes "unit_group item f" "g_rect f = Some gr" "g_text f = Some gt"
    and "step env st item = Inr st1"
  obtains rb b tv where
    "read_bounds env gr = Inr rb" "el_text gt = Some tv"
    "case g_image f of None \<Rightarrow> b = rb | Some gi \<Rightarrow> read_bounds env gi = Inr b"
    "elements st1 = elements st @ [length (heap st)] @
       (if g_image f = None then [] else [Suc (length (heap st))]) @
       [length (heap st) + (if g_image f = None then 1 else 2)]"
    "length (heap st1) = length (heap st) + (if g_image f = None then 2 else 3)"
    "heap st1 ! length (heap st) =
       (shape_element Rectangle (rand_id env (nxt st)) rb None)
         \<lparr>boundElements := Some [text_bound (rand_id env (Suc (nxt st)))]\<rparr>"
    "heap st1 ! (length (heap st) + (if g_image f = None then 1 else 2)) =
       (text_element (rand_id env (Suc (nxt st))) b
          (font_size_of (case xget gt ''style'' of None \<Rightarrow> [] | Some s \<Rightarrow> s)) (strip tv))
         \<lparr>containerId := Some (rand_id env (nxt st))\<rparr>"
  using assms(1,4)
proof (rule step_unit_Inr)
  fix r st3 i st4 t st5 st7
  let ?xc = "rand_id env (nxt st)"
  let ?st2 = "st\<lparr>nxt := Suc (nxt st),
           svg_xc_map := AList.update (xget item ''id'') ?xc (svg_xc_map st)\<rparr>"
  assume rp: "rect_phase env ?xc (g_rect f) ?st2 = Inr (r, st3)"
    and ip: "image_phase env ?xc (g_image f) st3 = Inr (i, st4)"
    and tp: "text_phase env (g_text f) st4 = Inr (t, st5)"
    and bp: "bind_phase env ?xc r i t st5 = Inr st7"
    and st1: "st1 = append_phase r i t None st7"
  from rp [unfolded assms(2)] obtain rb where rb: "read_bounds env gr = Inr rb"
    and r: "r = Some (length (heap st))"
    and st3: "st3 = ?st2\<lparr>shape_bounds := AList.update ?xc rb (shape_bounds ?st2),
              shape_elt_map := AList.update ?xc (length (heap ?st2)) (shape_elt_map ?st2),
              bounds_var := Some rb,
              heap := heap ?st2 @ [shape_element Rectangle ?xc rb None]\<rparr>"
    by (rule rect_phase_Inr) simp
  show ?thesis
  proof (cases "g_image f")
    case None
    with ip have i: "i = None" and st4: "st4 = st3" by simp_all
    from tp [unfolded assms(3)] obtain b tv where b: "bounds_var st4 = Some b" and tv: "el_text gt = Some tv"
      and t: "t = Some (length (heap st4), rand_id env (nxt st4),
               font_size_of (case xget gt ''style'' of None \<Rightarrow> [] | Some s \<Rightarrow> s))"
      and st5: "st5 = st4\<lparr>nxt := Suc (nxt st4),
              heap := heap st4 @ [text_element (rand_id env (nxt st4)) b
                (font_size_of (case xget gt ''style'' of None \<Rightarrow> [] | Some s \<Rightarrow> s)) (strip tv)]\<rparr>"
      by (rule text_phase_Inr)
    from b have bb: "b = rb" by (simp add: st4 st3)
    from bp have st7: "st7 = modify (Suc (length (heap st))) (\<lambda>e. e\<lparr>containerId := Some ?xc\<rparr>)
        (modify (length (heap st)) (\<lambda>e. e\<lparr>boundElements := Some [text_bound (rand_id env (Suc (nxt st)))]\<rparr>) st5)"
      by (simp add: bind_phase_def r t i st5 st4 st3 append_bound_def shape_element_def nth_append)
    show ?thesis
      by (rule that [OF rb tv, of b])
        (simp_all add: None bb st1 st7 r i t st5 st4 st3 append_phase_def modify_def nth_append
          shape_element_def text_element_def)
  next
    case (Some gi)
    from ip [unfolded Some] obtain ib d where ib: "read_bounds env gi = Inr ib"
      and i: "i = Some (length (heap st3), image_id env d,
               \<lparr>mimeType = ''image/svg+xml'', file_id = image_id env d, dataURL = d\<rparr>)"
      and st4: "st4 = st3\<lparr>shape_bounds := AList.update ?xc ib (shape_bounds st3),
              shape_elt_map := AList.update ?xc (length (heap st3)) (shape_elt_map st3),
              bounds_var := Some ib,
              heap := heap st3 @ [shape_element Image ?xc ib (Some (image_id env d))]\<rparr>"
      by (rule image_phase_Inr)
    from tp [unfolded assms(3)] obtain b tv where b: "bounds_var st4 = Some b" and tv: "el_text gt = Some tv"
      and t: "t = Some (length (heap st4), rand_id env (nxt st4),
               font_size_of (case xget gt ''style'' of None \<Rightarrow> [] | Some s \<Rightarrow> s))"
      and st5: "st5 = st4\<lparr>nxt := Suc (nxt st4),
              heap := heap st4 @ [text_element (rand_id env (nxt st4)) b
                (font_size_of (case xget gt ''style'' of None \<Rightarrow> [] | Some s \<Rightarrow> s)) (strip tv)]\<rparr>"
      by (rule text_phase_Inr)
    from b have bb: "b = ib" by (simp add: st4)
    from bp have st7: "st7 = modify (Suc (Suc (length (heap st)))) (\<lambda>e. e\<lparr>containerId := Some ?xc\<rparr>)
        (modify (length (heap st)) (\<lambda>e. e\<lparr>boundElements := Some [text_bound (rand_id env (Suc (nxt st)))]\<rparr>) st5)"
      by (simp add: bind_phase_def r t i st5 st4 st3 append_bound_def shape_element_def nth_append)
    show ?thesis
      by (rule that [OF rb tv, of b])
        (simp_all add: Some ib bb st1 st7 r i t st5 st4 st3 append_phase_def modify_def nth_append
          shape_element_def text_element_def)
  qed
qed

lemma filter_text_arrows: "arrows_only cs \<Longrightarrow> filter (\<lambda>b. be_type b = ''text'') cs = []"
  by (induction cs) (auto simp: arrows_only_def)

text \<open>
  C3. A unit group with a rectangle and a label: at the end of the translation the rectangle
  carries the group's id and the label the id drawn next; the entries of type \<open>text\<close> in the
  rectangle's \<open>boundElements\<close> are exactly the one entry with the label's id; and the label's
  \<open>containerId\<close> is the rectangle's id.
\<close>

theorem rect_label_binding:
  assumes "unit_group item f" and "g_rect f = Some gr" and "g_text f = Some gt"
    and "step env st item = Inr st1" and "walk env st1 items = Inr st2"
  shows "elt_type (scene_elements st2 ! rect_index st) = Rectangle \<and>
         elt_id (scene_elements st2 ! rect_index st) = rand_id env (nxt st) \<and>
         elt_type (scene_elements st2 ! label_index st f) = Text \<and>
         elt_id (scene_elements st2 ! label_index st f) = rand_id env (Suc (nxt st)) \<and>
         (\<exists>bs. boundElements (scene_elements st2 ! rect_index st) = Some bs \<and>
               filter (\<lambda>b. be_type b = ''text'') bs =
                 [\<lparr>be_type = ''text'', be_id = elt_id (scene_elements st2 ! label_index st f)\<rparr>]) \<and>
         containerId (scene_elements st2 ! label_index st f) =
           Some (elt_id (scene_elements st2 ! rect_index st))"
  using assms(1,2,3,4)
proof (rule rect_label_step)
  fix rb b tv
  let ?n = "length (heap st)" and ?k = "length (elements st)"
  let ?d = "if g_image f = None then 1 else 2 :: nat"
  let ?R = "(shape_element Rectangle (rand_id env (nxt st)) rb None)
         \<lparr>boundElements := Some [text_bound (rand_id env (Suc (nxt st)))]\<rparr>"
  let ?T = "(text_element (rand_id env (Suc (nxt st))) b
          (font_size_of (case xget gt ''style'' of None \<Rightarrow> [] | Some s \<Rightarrow> s)) (strip tv))
         \<lparr>containerId := Some (rand_id env (nxt st))\<rparr>"
  assume e: "elements st1 = elements st @ [?n] @ (if g_image f = None then [] else [Suc ?n]) @ [?n + ?d]"
    and len: "length (heap st1) = ?n + (if g_image f = None then 2 else 3)"
    and cr: "heap st1 ! ?n = ?R" and ct: "heap st1 ! (?n + ?d) = ?T"
  have li: "label_index st f = ?k + ?d" using assms(2) by (simp add: label_index_def)
  have er: "elements st1 ! ?k = ?n" by (simp add: e)
  have et: "elements st1 ! (?k + ?d) = ?n + ?d" by (simp add: e nth_append)
  have "ext (heap st1 ! (elements st1 ! ?k)) (scene_elements st2 ! ?k)"
    by (rule scene_frame [OF assms(5)]) (simp_all add: e len)
  then have xr: "ext ?R (scene_elements st2 ! ?k)" by (simp add: er cr)
  have "ext (heap st1 ! (elements st1 ! (?k + ?d))) (scene_elements st2 ! (?k + ?d))"
    by (rule scene_frame [OF assms(5)]) (simp_all add: e len nth_append)
  then have xt: "ext ?T (scene_elements st2 ! (?k + ?d))" by (simp only: et ct)
  have T: "scene_elements st2 ! (?k + ?d) = ?T"
    by (rule ext_None [OF xt]) (simp add: text_element_def)
  from ext_Some [OF xr, of "[text_bound (rand_id env (Suc (nxt st)))]"]
  obtain cs where cs: "arrows_only cs"
    and bs: "boundElements (scene_elements st2 ! ?k) = Some ([text_bound (rand_id env (Suc (nxt st)))] @ cs)"
    by auto
  have f: "filter (\<lambda>b. be_type b = ''text'') ([text_bound (rand_id env (Suc (nxt st)))] @ cs) =
    [\<lparr>be_type = ''text'', be_id = rand_id env (Suc (nxt st))\<rparr>]"
    by (simp add: filter_text_arrows [OF cs] text_bound_def)
  show ?thesis
    using ext_fields(1,2) [OF xr] bs f
    by (simp add: rect_index_def li T shape_element_def text_element_def)
qed

lemma unit_A_group: "unit_group unit_A found_A"
  unfolding found_A_def by code_simp

lemma step_A: "step sample_env init_ctx unit_A = Inr st_A"
  unfolding st_A_def by code_simp

lemma walk_ABe: "walk sample_env st_A [unit_B, edge_AB] = Inr st_ABe"
  unfolding st_ABe_def st_A_def by code_simp

theorem rect_label_binding_witness:
  "unit_group unit_A found_A \<and>
   g_rect found_A = Some (the (g_rect found_A)) \<and> g_text found_A = Some (the (g_text found_A)) \<and>
   step sample_env init_ctx unit_A = Inr st_A \<and> walk sample_env st_A [unit_B, edge_AB] = Inr st_ABe \<and>
   rect_index init_ctx = 0 \<and> label_index init_ctx found_A = 1 \<and>
   elt_type (scene_elements st_ABe ! 0) = Rectangle \<and>
   elt_id (scene_elements st_ABe ! 0) = sample_id 0 \<and>
   elt_type (scene_elements st_ABe ! 1) = Text \<and>
   elt_id (scene_elements st_ABe ! 1) = sample_id 1 \<and>
   (\<exists>bs. boundElements (scene_elements st_ABe ! 0) = Some bs \<and>
         filter (\<lambda>b. be_type b = ''text'') bs =
           [\<lparr>be_type = ''text'', be_id = elt_id (scene_elements st_ABe ! 1)\<rparr>]) \<and>
   containerId (scene_elements st_ABe ! 1) = Some (elt_id (scene_elements st_ABe ! 0)) \<and>
   boundElements (scene_elements st_ABe ! 0) =
     Some [\<lparr>be_type = ''text'', be_id = sample_id 1\<rparr>, \<lparr>be_type = ''arrow'', be_id = sample_id 5\<rparr>]"
proof -
  have r: "g_rect found_A = Some (the (g_rect found_A))" unfolding found_A_def by code_simp
  have t: "g_text found_A = Some (the (g_text found_A))" unfolding found_A_def by code_simp
  have ri: "rect_index init_ctx = 0" by code_simp
  have li: "label_index init_ctx found_A = 1" unfolding found_A_def by code_simp
  have n: "rand_id sample_env (nxt init_ctx) = sample_id 0"
    "rand_id sample_env (Suc (nxt init_ctx)) = sample_id 1"
    by (simp_all add: sample_env_def init_ctx_def)
  have b: "boundElements (scene_elements st_ABe ! 0) =
     Some [\<lparr>be_type = ''text'', be_id = sample_id 1\<rparr>, \<lparr>be_type = ''arrow'', be_id = sample_id 5\<rparr>]"
    unfolding st_ABe_def st_A_def by code_simp
  note c = rect_label_binding [OF unit_A_group r t step_A walk_ABe, unfolded ri li n]
  from unit_A_group r t step_A walk_ABe ri li c b show ?thesis
    by (elim conjE, intro conjI) assumption+
qed

text \<open>A unit group with an image and a label, and no rectangle.\<close>

lemma image_label_step:
  assumes "unit_group item f" "g_rect f = None" "g_image f = Some gi" "g_text f = Some gt"
    and "step env st item = Inr st1"
  obtains ib d tv where
    "read_bounds env gi = Inr ib" "xget gi ''href'' = Some d" "el_text gt = Some tv"
    "elements st1 = elements st @ [length (heap st), Suc (length (heap st))]"
    "length (heap st1) = Suc (Suc (length (heap st)))"
    "heap st1 ! length (heap st) =
       (shape_element Image (rand_id env (nxt st)) ib (Some (image_id env d)))
         \<lparr>groupIds := [rand_id env (Suc (Suc (nxt st)))]\<rparr>"
    "heap st1 ! Suc (length (heap st)) =
       (text_element (rand_id env (Suc (nxt st))) ib
          (font_size_of (case xget gt ''style'' of None \<Rightarrow> [] | Some s \<Rightarrow> s)) (strip tv))
         \<lparr>groupIds := [rand_id env (Suc (Suc (nxt st)))],
          elt_y := b_y ib + (b_height ib / 2) - 4 -
                   (of_int (font_size_of (case xget gt ''style'' of None \<Rightarrow> [] | Some s \<Rightarrow> s)) / 2) +
                   (b_height ib / 2 +
                    of_int (font_size_of (case xget gt ''style'' of None \<Rightarrow> [] | Some s \<Rightarrow> s)) / 2)\<rparr>"
    "files st1 = AList.update (image_id env d)
       \<lparr>mimeType = ''image/svg+xml'', file_id = image_id env d, dataURL = d\<rparr> (files st)"
  using assms(1,5)
proof (rule step_unit_Inr)
  fix r st3 i st4 t st5 st7
  let ?xc = "rand_id env (nxt st)"
  let ?st2 = "st\<lparr>nxt := Suc (nxt st),
           svg_xc_map := AList.update (xget item ''id'') ?xc (svg_xc_map st)\<rparr>"
  assume rp: "rect_phase env ?xc (g_rect f) ?st2 = Inr (r, st3)"
    and ip: "image_phase env ?xc (g_image f) st3 = Inr (i, st4)"
    and tp: "text_phase env (g_text f) st4 = Inr (t, st5)"
    and bp: "bind_phase env ?xc r i t st5 = Inr st7"
    and st1: "st1 = append_phase r i t None st7"
  from rp have r: "r = None" and st3: "st3 = ?st2" by (simp_all add: assms(2))
  from ip [unfolded assms(3)] obtain ib d where ib: "read_bounds env gi = Inr ib"
    and d: "xget gi ''href'' = Some d"
    and i: "i = Some (length (heap st3), image_id env d,
             \<lparr>mimeType = ''image/svg+xml'', file_id = image_id env d, dataURL = d\<rparr>)"
    and st4: "st4 = st3\<lparr>shape_bounds := AList.update ?xc ib (shape_bounds st3),
            shape_elt_map := AList.update ?xc (length (heap st3)) (shape_elt_map st3),
            bounds_var := Some ib,
            heap := heap st3 @ [shape_element Image ?xc ib (Some (image_id env d))]\<rparr>"
    by (rule image_phase_Inr)
  from tp [unfolded assms(4)] obtain b tv where b: "bounds_var st4 = Some b" and tv: "el_text gt = Some tv"
    and t: "t = Some (length (heap st4), rand_id env (nxt st4),
             font_size_of (case xget gt ''style'' of None \<Rightarrow> [] | Some s \<Rightarrow> s))"
    and st5: "st5 = st4\<lparr>nxt := Suc (nxt st4),
            heap := heap st4 @ [text_element (rand_id env (nxt st4)) b
              (font_size_of (case xget gt ''style'' of None \<Rightarrow> [] | Some s \<Rightarrow> s)) (strip tv)]\<rparr>"
    by (rule text_phase_Inr)
  from b have bb: "b = ib" by (simp add: st4)
  let ?fs = "font_size_of (case xget gt ''style'' of None \<Rightarrow> [] | Some s \<Rightarrow> s)"
  let ?gid = "rand_id env (Suc (Suc (nxt st)))"
  from bp have st7: "st7 =
      modify (Suc (length (heap st))) (\<lambda>e. e\<lparr>elt_y := elt_y e + (b_height ib / 2 + of_int ?fs / 2)\<rparr>)
        (modify (Suc (length (heap st))) (\<lambda>e. e\<lparr>groupIds := [?gid]\<rparr>)
          (modify (length (heap st)) (\<lambda>e. e\<lparr>groupIds := [?gid]\<rparr>) (st5\<lparr>nxt := Suc (nxt st5)\<rparr>)))"
    by (simp add: bind_phase_def r t i bb st5 st4 st3 element_id_def Let_def modify_def
        shape_element_def nth_append)
  show ?thesis
    by (rule that [OF ib d tv])
      (simp_all add: bb st1 st7 r i t st5 st4 st3 append_phase_def modify_def nth_append
        shape_element_def text_element_def)
qed


lemma unit_I_group: "unit_group unit_I found_I"
  unfolding found_I_def by code_simp

lemma step_I: "step sample_env init_ctx unit_I = Inr st_I"
  unfolding st_I_def by code_simp






subsection \<open>Image files\<close>

lemma modify_fileId:
  assumes "\<And>e. fileId (g e) = fileId e"
  shows "fileId (heap (modify a g st) ! c) = fileId (heap st ! c)"
proof (cases "c = a \<and> a < length (heap st)")
  case True
  then show ?thesis by (simp add: modify_def assms)
next
  case False
  then show ?thesis
    by (cases "a < length (heap st)") (auto simp: modify_def list_update_beyond)
qed

lemma modify_elt_type:
  assumes "\<And>e. elt_type (g e) = elt_type e"
  shows "elt_type (heap (modify a g st) ! c) = elt_type (heap st ! c)"
proof (cases "c = a \<and> a < length (heap st)")
  case True
  then show ?thesis by (simp add: modify_def assms)
next
  case False
  then show ?thesis
    by (cases "a < length (heap st)") (auto simp: modify_def list_update_beyond)
qed

lemma bind_phase_fields:
  assumes "bind_phase env xc r i t st = Inr st'"
  shows "fileId (heap st' ! a) = fileId (heap st ! a) \<and> elt_type (heap st' ! a) = elt_type (heap st ! a)"
  using assms
  by (auto simp: bind_phase_def append_bound_def element_id_def Let_def modify_fileId modify_elt_type
      split: option.splits sum.splits prod.splits)

lemma rect_phase_result:
  "rect_phase env xc gr st = Inr (r, st') \<Longrightarrow> (r = None \<longleftrightarrow> gr = None)"
  by (cases gr) (auto elim: rect_phase_Inr)

lemma append_phase_files:
  "files (append_phase r i t l st) =
     (case i of None \<Rightarrow> files st | Some (ia, fid, blob) \<Rightarrow> AList.update fid blob (files st))"
  by (auto simp: append_phase_def Let_def split: option.splits)

lemma append_phase_image_index:
  "elements (append_phase r (Some (ia, fid, blob)) t l st) !
     (length (elements st) + (if r = None then 0 else 1)) = ia"
  "length (elements st) + (if r = None then 0 else 1) <
     length (elements (append_phase r (Some (ia, fid, blob)) t l st))"
  by (auto simp: append_phase_def Let_def nth_append split: option.splits)

text \<open>A group with an image: its element and its entry in the files.\<close>

lemma image_step:
  assumes "el_tag item = g_tag" "scan_subitems none_found (el_children item) = Inr f"
    and "g_image f = Some gi" and "step env st item = Inr st1"
  obtains d where "xget gi ''href'' = Some d"
    "files st1 = AList.update (image_id env d)
       \<lparr>mimeType = ''image/svg+xml'', file_id = image_id env d, dataURL = d\<rparr> (files st)"
    "image_index st f < length (elements st1)"
    "elements st1 ! image_index st f < length (heap st1)"
    "elt_type (heap st1 ! (elements st1 ! image_index st f)) = Image"
    "fileId (heap st1 ! (elements st1 ! image_index st f)) = Some (image_id env d)"
proof -
  let ?xc = "rand_id env (nxt st)"
  let ?st2 = "st\<lparr>nxt := Suc (nxt st),
           svg_xc_map := AList.update (xget item ''id'') ?xc (svg_xc_map st)\<rparr>"
  from assms(4) have "process env item (?xc, ?st2) = Inr st1"
    by (simp add: step_group [OF assms(1)])
  then show ?thesis
  proof (rule process_InrE)
    fix f' r st3 i st4 t st5 l st6 st7
    assume "scan_subitems none_found (el_children item) = Inr f'"
    with assms(2) have f': "f' = f" by simp
    assume rp: "rect_phase env ?xc (g_rect f') ?st2 = Inr (r, st3)"
      and ip: "image_phase env ?xc (g_image f') st3 = Inr (i, st4)"
      and tp: "text_phase env (g_text f') st4 = Inr (t, st5)"
      and lp: "line_phase env (xget item ''id'') (g_line f') st5 = Inr (l, st6)"
      and bp: "bind_phase env ?xc r i t st6 = Inr st7"
      and st1: "st1 = append_phase r i t l st7"
    note R = rect_phase_frame [OF rp] and T = text_phase_frame [OF tp] and L = line_phase_frame [OF lp]
    from ip [unfolded f' assms(3)] obtain b d where d: "xget gi ''href'' = Some d"
      and i: "i = Some (length (heap st3), image_id env d,
               \<lparr>mimeType = ''image/svg+xml'', file_id = image_id env d, dataURL = d\<rparr>)"
      and st4: "st4 = st3\<lparr>shape_bounds := AList.update ?xc b (shape_bounds st3),
              shape_elt_map := AList.update ?xc (length (heap st3)) (shape_elt_map st3),
              bounds_var := Some b,
              heap := heap st3 @ [shape_element Image ?xc b (Some (image_id env d))]\<rparr>"
      by (rule image_phase_Inr)
    let ?ia = "length (heap st3)"
    have c4: "heap st4 ! ?ia = shape_element Image ?xc b (Some (image_id env d))"
      and l4: "?ia < length (heap st4)" by (simp_all add: st4)
    have c46: "cells_ext st4 st6" using T(1) L(1) by (rule cells_ext_trans)
    have x: "ext (heap st4 ! ?ia) (heap st6 ! ?ia)" by (rule cells_extD [OF c46 l4])
    have l6: "?ia < length (heap st6)" using cells_ext_length [OF c46] l4 by simp
    have l7: "length (heap st7) = length (heap st6)"
      using bp by (auto simp: bind_phase_def append_bound_def modify_def element_id_def Let_def
          split: option.splits sum.splits prod.splits)
    have c7: "fileId (heap st7 ! ?ia) = Some (image_id env d)" "elt_type (heap st7 ! ?ia) = Image"
      using bind_phase_fields [OF bp, of ?ia] ext_fields(2,9) [OF x]
      by (simp_all add: c4 shape_element_def)
    have e7: "elements st7 = elements st"
      using bind_phase_frame(3) [OF bp, of 0] L(2) T(2) R(2) by (simp add: st4)
    have f7: "files st7 = files st"
      using bind_phase_frame(4) [OF bp, of 0] L(3) T(3) R(3) by (simp add: st4)
    have rn: "r = None \<longleftrightarrow> g_rect f = None"
      using rect_phase_result [OF rp] by (simp add: f')
    have ii: "image_index st f = length (elements st7) + (if r = None then 0 else 1)"
      by (simp add: image_index_def e7 rn)
    have h1: "heap st1 = heap st7" by (simp add: st1 append_phase_frame)
    show ?thesis
    proof (rule that [OF d])
      show "files st1 = AList.update (image_id env d)
         \<lparr>mimeType = ''image/svg+xml'', file_id = image_id env d, dataURL = d\<rparr> (files st)"
        by (simp add: st1 append_phase_files i f7)
      show "image_index st f < length (elements st1)"
        unfolding ii st1 i by (rule append_phase_image_index(2))
      have el: "elements st1 ! image_index st f = ?ia"
        unfolding ii st1 i by (rule append_phase_image_index(1))
      show "elements st1 ! image_index st f < length (heap st1)"
        by (simp add: el h1 l7 l6)
      show "elt_type (heap st1 ! (elements st1 ! image_index st f)) = Image"
        by (simp add: el h1 c7)
      show "fileId (heap st1 ! (elements st1 ! image_index st f)) = Some (image_id env d)"
        by (simp add: el h1 c7)
    qed
  qed
qed

lemma step_files:
  assumes "step env st item = Inr st'"
  shows "files st' = files st \<or> (\<exists>k v. files st' = AList.update k v (files st))"
proof (cases "el_tag item = g_tag")
  case False
  with assms show ?thesis by (simp add: step_def)
next
  case True
  let ?xc = "rand_id env (nxt st)"
  let ?st2 = "st\<lparr>nxt := Suc (nxt st),
           svg_xc_map := AList.update (xget item ''id'') ?xc (svg_xc_map st)\<rparr>"
  from assms have "process env item (?xc, ?st2) = Inr st'"
    by (simp add: step_group [OF True])
  then show ?thesis
  proof (rule process_InrE)
    fix f :: found and r st3 i st4 t st5 l st6 st7
    assume rp: "rect_phase env ?xc (g_rect f) ?st2 = Inr (r, st3)"
      and ip: "image_phase env ?xc (g_image f) st3 = Inr (i, st4)"
      and tp: "text_phase env (g_text f) st4 = Inr (t, st5)"
      and lp: "line_phase env (xget item ''id'') (g_line f) st5 = Inr (l, st6)"
      and bp: "bind_phase env ?xc r i t st6 = Inr st7"
      and st': "st' = append_phase r i t l st7"
    have "files st7 = files st"
      using bind_phase_frame(4) [OF bp, of 0] line_phase_frame(3) [OF lp] text_phase_frame(3) [OF tp]
        image_phase_frame(3) [OF ip] rect_phase_frame(3) [OF rp] by simp
    then show ?thesis
      by (cases i) (auto simp: st' append_phase_files)
  qed
qed

lemma walk_files:
  "walk env st items = Inr st' \<Longrightarrow> distinct (map fst (files st)) \<Longrightarrow>
     distinct (map fst (files st')) \<and> fst ` set (files st) \<subseteq> fst ` set (files st')"
proof (induction items arbitrary: st)
  case Nil
  then show ?case by simp
next
  case (Cons item items)
  from Cons.prems(1) obtain st1 where s: "step env st item = Inr st1" and w: "walk env st1 items = Inr st'"
    by (auto split: sum.splits)
  from step_files [OF s]
  have "distinct (map fst (files st1)) \<and> fst ` set (files st) \<subseteq> fst ` set (files st1)"
  proof (elim disjE exE)
    assume "files st1 = files st"
    with Cons.prems(2) show ?thesis by simp
  next
    fix k v
    assume u: "files st1 = AList.update k v (files st)"
    have "fst ` set (files st1) = {k} \<union> fst ` set (files st)"
      unfolding u by (rule dom_update)
    moreover have "distinct (map fst (files st1))"
      unfolding u using Cons.prems(2) by (rule distinct_update)
    ultimately show ?thesis by blast
  qed
  with Cons.IH [OF w] show ?case by blast
qed

lemma one_entry:
  "distinct (map fst al) \<Longrightarrow> k \<in> fst ` set al \<Longrightarrow> length (filter (\<lambda>kv. fst kv = k) al) = 1"
proof (induction al)
  case Nil
  then show ?case by simp
next
  case (Cons a al)
  show ?case
  proof (cases "fst a = k")
    case True
    with Cons.prems(1) have "k \<notin> fst ` set al" by auto
    then have "filter (\<lambda>kv. fst kv = k) al = []" by (auto simp: filter_empty_conv)
    with True show ?thesis by simp
  next
    case False
    with Cons show ?thesis by auto
  qed
qed

text \<open>
  C9. A group with an image whose payload is \<open>p\<close>: the image element's \<open>fileId\<close> is the
  digest of \<open>p\<close>, a function of the payload alone, so two images with the same payload have
  the same id; and at the end of the translation the files hold exactly one entry under
  that id, however many groups carried the payload.
\<close>

theorem image_file_dedup:
  assumes "walk env init_ctx pre = Inr st"
    and "el_tag item = g_tag" and "scan_subitems none_found (el_children item) = Inr f"
    and "g_image f = Some gi" and "xget gi ''href'' = Some p"
    and "step env st item = Inr st1" and "walk env st1 items = Inr st2"
  shows "image_id env p = sha1_hex env p \<and>
         elt_type (scene_elements st2 ! image_index st f) = Image \<and>
         fileId (scene_elements st2 ! image_index st f) = Some (image_id env p) \<and>
         length (filter (\<lambda>kv. fst kv = image_id env p) (files st2)) = 1"
  using assms(2,3,4,6)
proof (rule image_step)
  fix d
  assume d: "xget gi ''href'' = Some d"
    and fl: "files st1 = AList.update (image_id env d)
       \<lparr>mimeType = ''image/svg+xml'', file_id = image_id env d, dataURL = d\<rparr> (files st)"
    and i1: "image_index st f < length (elements st1)"
    and i2: "elements st1 ! image_index st f < length (heap st1)"
    and ty: "elt_type (heap st1 ! (elements st1 ! image_index st f)) = Image"
    and fi: "fileId (heap st1 ! (elements st1 ! image_index st f)) = Some (image_id env d)"
  from d assms(5) have dp: "d = p" by simp
  have x: "ext (heap st1 ! (elements st1 ! image_index st f)) (scene_elements st2 ! image_index st f)"
    by (rule scene_frame [OF assms(7) i1 i2])
  have d0: "distinct (map fst (files st))"
    using walk_files [OF assms(1)] by (simp add: init_ctx_def)
  have d1: "distinct (map fst (files st1))"
    unfolding fl using d0 by (rule distinct_update)
  have "fst ` set (files st1) = {image_id env d} \<union> fst ` set (files st)"
    unfolding fl by (rule dom_update)
  then have k1: "image_id env p \<in> fst ` set (files st1)" by (simp add: dp)
  from walk_files [OF assms(7) d1] k1
  have "distinct (map fst (files st2))" "image_id env p \<in> fst ` set (files st2)" by blast+
  then have one: "length (filter (\<lambda>kv. fst kv = image_id env p) (files st2)) = 1"
    by (rule one_entry)
  show ?thesis
    using ext_fields(2,9) [OF x] one by (simp add: ty fi dp image_id_def)
qed

lemma step_II: "step sample_env st_I unit_I = Inr st_II"
  unfolding st_II_def st_I_def by code_simp

theorem image_file_dedup_witness:
  "walk sample_env init_ctx [unit_I] = Inr st_I \<and> el_tag unit_I = g_tag \<and>
   scan_subitems none_found (el_children unit_I) = Inr found_I \<and>
   g_image found_I = Some (the (g_image found_I)) \<and>
   xget (the (g_image found_I)) ''href'' = Some ''data:image/svg+xml;base64,PD94'' \<and>
   step sample_env st_I unit_I = Inr st_II \<and> walk sample_env st_II [] = Inr st_II \<and>
   image_index st_I found_I = 2 \<and>
   fileId (scene_elements st_II ! 2) = Some (image_id sample_env ''data:image/svg+xml;base64,PD94'') \<and>
   fileId (scene_elements st_II ! 0) = Some (image_id sample_env ''data:image/svg+xml;base64,PD94'') \<and>
   length (filter (\<lambda>kv. fst kv = image_id sample_env ''data:image/svg+xml;base64,PD94'') (files st_II)) = 1 \<and>
   length (files st_II) = 1"
proof -
  have w0: "walk sample_env init_ctx [unit_I] = Inr st_I" by (simp add: step_I)
  have g: "el_tag unit_I = g_tag" by code_simp
  have sc: "scan_subitems none_found (el_children unit_I) = Inr found_I"
    unfolding found_I_def by code_simp
  have i: "g_image found_I = Some (the (g_image found_I))" unfolding found_I_def by code_simp
  have h: "xget (the (g_image found_I)) ''href'' = Some ''data:image/svg+xml;base64,PD94''"
    unfolding found_I_def by code_simp
  have w: "walk sample_env st_II [] = Inr st_II" by simp
  have ii: "image_index st_I found_I = 2" unfolding found_I_def st_I_def by code_simp
  have z: "fileId (scene_elements st_II ! 0) = Some (image_id sample_env ''data:image/svg+xml;base64,PD94'')"
    unfolding st_II_def st_I_def by code_simp
  have n: "length (files st_II) = 1" unfolding st_II_def st_I_def by code_simp
  note c = image_file_dedup [OF w0 g sc i h step_II w, unfolded ii]
  from c have c1: "fileId (scene_elements st_II ! 2) =
      Some (image_id sample_env ''data:image/svg+xml;base64,PD94'')"
    and c2: "length (filter (\<lambda>kv. fst kv = image_id sample_env ''data:image/svg+xml;base64,PD94'')
      (files st_II)) = 1"
    by blast+
  from w0 g sc i h step_II w ii c1 z c2 n show ?thesis by (intro conjI)
qed

subsection \<open>The name map\<close>

lemma step_svg_xc_map:
  assumes "step env st item = Inr st'"
  shows "svg_xc_map st' =
     (if el_tag item = g_tag
      then AList.update (xget item ''id'') (rand_id env (nxt st)) (svg_xc_map st)
      else svg_xc_map st)"
proof (cases "el_tag item = g_tag")
  case False
  with assms show ?thesis by (simp add: step_def)
next
  case True
  with assms have "process env item (rand_id env (nxt st),
      st\<lparr>nxt := Suc (nxt st),
         svg_xc_map := AList.update (xget item ''id'') (rand_id env (nxt st)) (svg_xc_map st)\<rparr>) = Inr st'"
    by (simp add: step_group)
  from process_frame(3) [OF this] True show ?thesis by simp
qed

lemma walk_keys:
  "walk env st items = Inr st' \<Longrightarrow>
     fst ` set (svg_xc_map st') =
       fst ` set (svg_xc_map st) \<union> (\<lambda>g. xget g ''id'') ` {g \<in> set items. el_tag g = g_tag}"
proof (induction items arbitrary: st)
  case Nil
  then show ?case by simp
next
  case (Cons item items)
  from Cons.prems obtain st1 where s: "step env st item = Inr st1" and w: "walk env st1 items = Inr st'"
    by (auto split: sum.splits)
  have k1: "fst ` set (svg_xc_map st1) =
    fst ` set (svg_xc_map st) \<union> (if el_tag item = g_tag then {xget item ''id''} else {})"
    by (simp add: step_svg_xc_map [OF s] dom_update)
  have "{g \<in> set (item # items). el_tag g = g_tag} =
    (if el_tag item = g_tag then {item} else {}) \<union> {g \<in> set items. el_tag g = g_tag}"
    by auto
  then show ?case
    unfolding Cons.IH [OF w] k1 by (auto split: if_splits)
qed

lemma line_geometry_Inl:
  "line_geometry env sbs sid eid pc = Inl e \<Longrightarrow> e \<noteq> KeyError SvgXcMap u"
  unfolding line_geometry_def Let_def
  by (auto split: option.splits sum.splits if_splits)


lemma walk_AA: "walk sample_env init_ctx [unit_A, edge_AA] = Inr st_AA"
  unfolding st_AA_def by code_simp


subsection \<open>The addresses in the context exist\<close>

lemma list_all_update:
  "list_all P al \<Longrightarrow> P (k, v) \<Longrightarrow> list_all P (AList.update k v al)"
  by (induction al) auto

lemma list_all_mono_length:
  "list_all (\<lambda>ka. snd ka < n) al \<Longrightarrow> n \<le> m \<Longrightarrow> list_all (\<lambda>ka. snd ka < (m::nat)) al"
  by (induction al) auto

lemma rect_phase_maps:
  assumes "rect_phase env xc gr st = Inr (r, st')"
    and "list_all (\<lambda>ka. snd ka < length (heap st)) (shape_elt_map st)"
  shows "list_all (\<lambda>ka. snd ka < length (heap st')) (shape_elt_map st')"
proof (cases gr)
  case None
  with assms show ?thesis by simp
next
  case (Some g)
  from assms(1) [unfolded Some] show ?thesis
  proof (rule rect_phase_Inr)
    fix b
    assume "st' = st\<lparr>shape_bounds := AList.update xc b (shape_bounds st),
              shape_elt_map := AList.update xc (length (heap st)) (shape_elt_map st),
              bounds_var := Some b,
              heap := heap st @ [shape_element Rectangle xc b None]\<rparr>"
    then show ?thesis
      using list_all_mono_length [OF assms(2), of "Suc (length (heap st))"]
      by (simp add: list_all_update)
  qed
qed

lemma image_phase_maps:
  assumes "image_phase env xc gi st = Inr (i, st')"
    and "list_all (\<lambda>ka. snd ka < length (heap st)) (shape_elt_map st)"
  shows "list_all (\<lambda>ka. snd ka < length (heap st')) (shape_elt_map st')"
proof (cases gi)
  case None
  with assms show ?thesis by simp
next
  case (Some g)
  from assms(1) [unfolded Some] show ?thesis
  proof (rule image_phase_Inr)
    fix b d
    assume "st' = st\<lparr>shape_bounds := AList.update xc b (shape_bounds st),
              shape_elt_map := AList.update xc (length (heap st)) (shape_elt_map st),
              bounds_var := Some b,
              heap := heap st @ [shape_element Image xc b (Some (image_id env d))]\<rparr>"
    then show ?thesis
      using list_all_mono_length [OF assms(2), of "Suc (length (heap st))"]
      by (simp add: list_all_update)
  qed
qed

lemma text_phase_maps:
  assumes "text_phase env gt st = Inr (t, st')"
  shows "shape_elt_map st' = shape_elt_map st"
proof (cases gt)
  case None
  with assms show ?thesis by simp
next
  case (Some g)
  from assms [unfolded Some] show ?thesis
    by (rule text_phase_Inr) simp
qed

lemma line_phase_maps:
  assumes "line_phase env iid gl st = Inr (l, st')"
  shows "shape_elt_map st' = shape_elt_map st"
    and "\<And>a. l = Some a \<Longrightarrow> a < length (heap st')"
proof -
  have "shape_elt_map st' = shape_elt_map st \<and> (\<forall>a. l = Some a \<longrightarrow> a < length (heap st'))"
  proof (cases gl)
    case None
    with assms show ?thesis by simp
  next
    case (Some g)
    with assms obtain i where "iid = Some i"
      by (cases iid) (auto simp: line_phase_def element_id_def split: prod.splits)
    with assms Some have "line_phase env (Some i) (Some g) st = Inr (l, st')" by simp
    then show ?thesis
      by (rule line_phase_Inr) simp
  qed
  then show "shape_elt_map st' = shape_elt_map st" "\<And>a. l = Some a \<Longrightarrow> a < length (heap st')"
    by auto
qed

lemma bind_phase_maps:
  assumes "bind_phase env xc r i t st = Inr st'"
  shows "shape_elt_map st' = shape_elt_map st"
  using assms
  by (auto simp: bind_phase_def append_bound_def modify_def element_id_def Let_def
      split: option.splits sum.splits prod.splits)

lemma append_phase_maps: "shape_elt_map (append_phase r i t l st) = shape_elt_map st"
  by (auto simp: append_phase_def Let_def split: option.splits)

lemma append_phase_elements:
  assumes "list_all (\<lambda>a. a < length (heap st)) (elements st)"
    and "\<And>a. r = Some a \<Longrightarrow> a < length (heap st)"
    and "\<And>a x y. i = Some (a, x, y) \<Longrightarrow> a < length (heap st)"
    and "\<And>a x y. t = Some (a, x, y) \<Longrightarrow> a < length (heap st)"
    and "\<And>a. l = Some a \<Longrightarrow> a < length (heap st)"
  shows "list_all (\<lambda>a. a < length (heap (append_phase r i t l st))) (elements (append_phase r i t l st))"
  using assms by (auto simp: append_phase_def Let_def split: option.splits)

lemma step_addresses_valid:
  assumes "step env st item = Inr st'" and "addresses_valid st"
  shows "addresses_valid st'"
proof (cases "el_tag item = g_tag")
  case False
  with assms show ?thesis by (simp add: step_def)
next
  case True
  let ?xc = "rand_id env (nxt st)"
  let ?st2 = "st\<lparr>nxt := Suc (nxt st),
           svg_xc_map := AList.update (xget item ''id'') ?xc (svg_xc_map st)\<rparr>"
  from assms(1) have "process env item (?xc, ?st2) = Inr st'"
    by (simp add: step_group [OF True])
  then show ?thesis
  proof (rule process_InrE)
    fix f :: found and r st3 i st4 t st5 l st6 st7
    assume rp: "rect_phase env ?xc (g_rect f) ?st2 = Inr (r, st3)"
      and ip: "image_phase env ?xc (g_image f) st3 = Inr (i, st4)"
      and tp: "text_phase env (g_text f) st4 = Inr (t, st5)"
      and lp: "line_phase env (xget item ''id'') (g_line f) st5 = Inr (l, st6)"
      and bp: "bind_phase env ?xc r i t st6 = Inr st7"
      and st': "st' = append_phase r i t l st7"
    note R = rect_phase_frame [OF rp] and I = image_phase_frame [OF ip]
      and T = text_phase_frame [OF tp] and L = line_phase_frame [OF lp]
    note B = bind_phase_frame [OF bp, of 0]
    have n23: "length (heap st) \<le> length (heap st3)" using cells_ext_length [OF R(1)] by simp
    have n34: "length (heap st3) \<le> length (heap st4)" by (rule cells_ext_length [OF I(1)])
    have n45: "length (heap st4) \<le> length (heap st5)" by (rule cells_ext_length [OF T(1)])
    have n56: "length (heap st5) \<le> length (heap st6)" by (rule cells_ext_length [OF L(1)])
    have n67: "length (heap st7) = length (heap st6)" using B(1) by simp
    from assms(2) have m2: "list_all (\<lambda>ka. snd ka < length (heap ?st2)) (shape_elt_map ?st2)"
      and e0: "list_all (\<lambda>a. a < length (heap st)) (elements st)"
      by (simp_all add: addresses_valid_def)
    have m4: "list_all (\<lambda>ka. snd ka < length (heap st4)) (shape_elt_map st4)"
      by (rule image_phase_maps [OF ip rect_phase_maps [OF rp m2]])
    have m7: "shape_elt_map st7 = shape_elt_map st4"
      by (simp add: bind_phase_maps [OF bp] line_phase_maps(1) [OF lp] text_phase_maps [OF tp])
    have m: "list_all (\<lambda>ka. snd ka < length (heap st7)) (shape_elt_map st7)"
      unfolding m7 by (rule list_all_mono_length [OF m4]) (use n45 n56 n67 in simp)
    have e7: "elements st7 = elements st" using B(3) L(2) T(2) I(2) R(2) by simp
    have e: "list_all (\<lambda>a. a < length (heap st7)) (elements st7)"
      unfolding e7 using e0 n23 n34 n45 n56 n67 by (auto simp: list_all_iff)
    have a1: "a < length (heap st7)" if "r = Some a" for a
      using R(6) [OF that] n34 n45 n56 n67 by simp
    have a2: "a < length (heap st7)" if "i = Some (a, x, y)" for a x y
      using I(6) [OF that] n45 n56 n67 by simp
    have a3: "a < length (heap st7)" if "t = Some (a, x, y)" for a x y
      using T(5) [OF that] n56 n67 by simp
    have a4: "a < length (heap st7)" if "l = Some a" for a
      using line_phase_maps(2) [OF lp that] n67 by simp
    show ?thesis
      unfolding addresses_valid_def st'
      using append_phase_elements [OF e a1 a2 a3 a4] m
      by (simp add: append_phase_maps append_phase_frame)
  qed
qed

lemma walk_addresses_valid:
  "walk env st items = Inr st' \<Longrightarrow> addresses_valid st \<Longrightarrow> addresses_valid st'"
proof (induction items arbitrary: st)
  case Nil
  then show ?case by simp
next
  case (Cons item items)
  from Cons.prems(1) obtain st1 where s: "step env st item = Inr st1" and w: "walk env st1 items = Inr st'"
    by (auto split: sum.splits)
  from Cons.IH [OF w step_addresses_valid [OF s Cons.prems(2)]] show ?case .
qed

lemma from_svg_addresses_valid:
  "walk env init_ctx items = Inr st \<Longrightarrow> addresses_valid st"
  by (erule walk_addresses_valid) (simp add: addresses_valid_def init_ctx_def)

end
